theory Spec2Isabelle
  imports Main "HOL-Library.Word"
begin

unbundle bit_operations_syntax

section \<open>Node watcher: packet marks\<close>

text \<open>
  Go's \<^verbatim>\<open>uint32\<close> is a 32-bit word: the bitwise operators of
  \<^verbatim>\<open>getMarkForVNID\<close> are the word operations.
\<close>

type_synonym uint32 = "32 word"

text \<open>
  \<^verbatim>\<open>fmt.Sprintf("0x%08x", vnid)\<close>: the verb \<^verbatim>\<open>%x\<close> writes an unsigned
  integer in base 16 with lower-case digits, most significant digit first and at least one
  digit; width 8 with the flag \<^verbatim>\<open>0\<close> pads with zeros on the left up to eight
  characters.
\<close>

definition hexDigit :: "nat \<Rightarrow> char" where
  "hexDigit d = ''0123456789abcdef'' ! d"

fun fmtHex :: "nat \<Rightarrow> string" where
  "fmtHex n = (if n < 16 then [hexDigit n] else fmtHex (n div 16) @ [hexDigit (n mod 16)])"

declare fmtHex.simps [simp del]

definition padZero :: "nat \<Rightarrow> string \<Rightarrow> string" where
  "padZero w s = replicate (w - length s) (CHR ''0'') @ s"

definition sprintf_0x08x :: "uint32 \<Rightarrow> string" where
  "sprintf_0x08x v = ''0x'' @ padZero 8 (fmtHex (unat v))"

text \<open>
  The numeric part of \<^verbatim>\<open>getMarkForVNID\<close>: the two assignments to the local
  \<^verbatim>\<open>vnid\<close>, in the order of the source.
\<close>

definition markForVNID :: "uint32 \<Rightarrow> uint32 \<Rightarrow> uint32" where
  "markForVNID vnid masqueradeBit =
     (let vnid = (if vnid = 0 then 0xff000000 else vnid);
          vnid = (if vnid AND masqueradeBit \<noteq> 0
                  then (vnid OR 0x01000000) XOR masqueradeBit else vnid)
      in vnid)"

definition getMarkForVNID :: "uint32 \<Rightarrow> uint32 \<Rightarrow> string" where
  "getMarkForVNID vnid masqueradeBit = sprintf_0x08x (markForVNID vnid masqueradeBit)"

text \<open>Reading a hexadecimal string back, used to state what the rendering denotes.\<close>

definition hexDigitVal :: "char \<Rightarrow> nat" where
  "hexDigitVal c = length (takeWhile (\<lambda>x. x \<noteq> c) ''0123456789abcdef'')"

definition parseHex :: "string \<Rightarrow> nat" where
  "parseHex s = foldl (\<lambda>a c. 16 * a + hexDigitVal c) 0 s"

definition isHexDigit :: "char \<Rightarrow> bool" where
  "isHexDigit c = (c \<in> set ''0123456789abcdef'')"


section \<open>Node watcher: state, environment and callbacks\<close>

text \<open>
  \<^verbatim>\<open>fmt.Sprintf("%s/%d", egressIP, maskLen)\<close> needs the decimal rendering of a
  non-negative integer.
\<close>

fun fmtDec :: "nat \<Rightarrow> string" where
  "fmtDec n = (if n < 10 then [''0123456789'' ! n]
               else fmtDec (n div 10) @ [''0123456789'' ! (n mod 10)])"

declare fmtDec.simps [simp del]

text \<open>
  The watcher talks to the kernel (netlink), to \<^verbatim>\<open>/sbin/arping\<close>, to iptables and to
  the OVS controller. None of them is part of the repository: the model takes their answers
  from a record of oracles and writes every call the watcher makes into a list of effects,
  in program order. A channel is a number; \<^verbatim>\<open>make(chan struct{})\<close> takes the next one.
\<close>

datatype errno = EEXIST | EADDRNOTAVAIL | ErrnoOther string

record Link =
  linkName :: string

record IPNet =
  netText :: string
  maskOnes :: nat

record Addr =
  addrIP :: string
  addrText :: string
  Label :: string

record egressIPMetaData =
  md_nodeIP :: string
  md_packetMark :: string

record EgressIPAssignment =
  NodeIP :: string
  EgressIP :: string

datatype egressError =
    EgressIPIsNodeIP string
  | NoLinkDetails string
  | BadEgressIP string string
  | NotInLocalNetwork string string string
  | AddrAddFailed string string errno
  | AddrDelFailed string string errno
  | IptablesAddFailed string
  | IptablesDelFailed string
  | LinkNameTooLong string

datatype loggedError =
    ErrAssigning string egressError
  | ErrReleasing string egressError
  | ErrStaleCheck egressError
  | ErrStaleList string
  | ErrStaleCleanup errno
  | ErrNamespaceRules uint32 string

datatype effect =
    NetlinkAddrAdd Link Addr
  | NetlinkAddrDel Link Addr
  | Arping string string string
  | Sleep2s
  | Go "effect list"
  | IptablesAddEgressIPRules string string
  | IptablesDeleteEgressIPRules string string
  | IptablesSyncEgressIPRules
  | OvsSetNamespaceEgressNormal uint32
  | OvsSetNamespaceEgressDropped uint32
  | OvsSetNamespaceEgressViaEgressIPs uint32 "egressIPMetaData list"
  | TestModeSend string
  | GoPollUntil nat
  | CloseChan nat
  | HandleError loggedError
  | LogInfo string

record world =
  GetLinkDetails :: "string \<Rightarrow> string + (Link \<times> IPNet)"
  ParseAddr :: "string \<Rightarrow> string + Addr"
  Contains :: "IPNet \<Rightarrow> string \<Rightarrow> bool"
  AddrAdd :: "Link \<Rightarrow> Addr \<Rightarrow> errno option"
  AddrDel :: "Link \<Rightarrow> Addr \<Rightarrow> errno option"
  AddrList :: "Link \<Rightarrow> string + Addr list"
  ArpingFails :: "string \<Rightarrow> string \<Rightarrow> string \<Rightarrow> bool"
  AddEgressIPRules :: "string \<Rightarrow> string \<Rightarrow> string option"
  DeleteEgressIPRules :: "string \<Rightarrow> string \<Rightarrow> string option"
  OvsNormal :: "uint32 \<Rightarrow> string option"
  OvsDropped :: "uint32 \<Rightarrow> string option"
  OvsViaEgressIPs :: "uint32 \<Rightarrow> egressIPMetaData list \<Rightarrow> string option"

record egressNode =
  nodeIP :: string
  offline :: bool
  egressIPs :: "string set"
  retries :: nat

record egressIPWatcher =
  localIP :: string
  masqueradeBit :: uint32
  iptablesMark :: "string \<rightharpoonup> string"
  monitorNodes :: "string \<rightharpoonup> egressNode"
  stop :: "nat option"
  testModeChan :: bool
  chansMade :: nat

text \<open>
  \<^verbatim>\<open>newEgressIPWatcher\<close>: both maps empty, no stop channel; the masquerade bit is
  \<^verbatim>\<open>1 << uint32(*masqueradeBit)\<close> when the pointer is not nil and 0 otherwise.
\<close>

definition newEgressIPWatcher :: "string \<Rightarrow> nat option \<Rightarrow> egressIPWatcher" where
  "newEgressIPWatcher lip mbit =
     \<lparr> localIP = lip,
       masqueradeBit = (case mbit of None \<Rightarrow> 0 | Some b \<Rightarrow> push_bit b 1),
       iptablesMark = Map.empty,
       monitorNodes = Map.empty,
       stop = None,
       testModeChan = False,
       chansMade = 0 \<rparr>"

text \<open>A Go map read of a missing key gives the zero value, the empty string.\<close>

definition markOf :: "(string \<rightharpoonup> string) \<Rightarrow> string \<Rightarrow> string" where
  "markOf m k = (case m k of None \<Rightarrow> [] | Some v \<Rightarrow> v)"

definition egressIPLabel :: "Link \<Rightarrow> egressError + string" where
  "egressIPLabel link =
     (let label = linkName link @ '':eip''
      in if length label > 15 then Inl (LinkNameTooLong (linkName link)) else Inr label)"

text \<open>
  \<^verbatim>\<open>assignEgressIP\<close>. The result of \<^verbatim>\<open>egressIPLabel\<close> is assigned with
  \<^verbatim>\<open>addr.Label, _ = egressIPLabel(localEgressLink)\<close>: its error is dropped and the label
  is then the empty string. The two arping calls run in a goroutine; the second follows only
  when the first succeeds.
\<close>

definition arpingRoutine :: "world \<Rightarrow> string \<Rightarrow> string \<Rightarrow> effect" where
  "arpingRoutine w lname egressIP =
     Go (if ArpingFails w ''-A'' lname egressIP
         then [Arping ''-A'' lname egressIP, LogInfo ''Failed to send ARP claim'']
         else [Arping ''-A'' lname egressIP, Sleep2s, Arping ''-U'' lname egressIP])"

definition assignEgressIP ::
  "world \<Rightarrow> egressIPWatcher \<Rightarrow> string \<Rightarrow> string \<Rightarrow> egressError option \<times> effect list" where
  "assignEgressIP w eip egressIP mark =
     (if egressIP = localIP eip then (Some (EgressIPIsNodeIP egressIP), [])
      else if testModeChan eip then (None, [TestModeSend (''claim '' @ egressIP)])
      else case GetLinkDetails w (localIP eip) of
        Inl e \<Rightarrow> (Some (NoLinkDetails e), [])
      | Inr (localEgressLink, localEgressNet) \<Rightarrow>
          (let egressIPNet = egressIP @ ''/'' @ fmtDec (maskOnes localEgressNet)
           in case ParseAddr w egressIPNet of
             Inl e \<Rightarrow> (Some (BadEgressIP egressIPNet e), [])
           | Inr addr0 \<Rightarrow>
               if \<not> Contains w localEgressNet (addrIP addr0)
               then (Some (NotInLocalNetwork egressIP (netText localEgressNet)
                             (linkName localEgressLink)), [])
               else
                 (let addr = addr0 \<lparr> Label :=
                        (case egressIPLabel localEgressLink of Inl _ \<Rightarrow> [] | Inr l \<Rightarrow> l) \<rparr>;
                      add = [NetlinkAddrAdd localEgressLink addr]
                  in case AddrAdd w localEgressLink addr of
                    Some (ErrnoOther e) \<Rightarrow>
                      (Some (AddrAddFailed egressIPNet (linkName localEgressLink) (ErrnoOther e)),
                       add)
                  | Some EADDRNOTAVAIL \<Rightarrow>
                      (Some (AddrAddFailed egressIPNet (linkName localEgressLink) EADDRNOTAVAIL),
                       add)
                  | r \<Rightarrow>
                      (let log = (if r = Some EEXIST
                                  then [LogInfo ''Egress IP already exists''] else []);
                           fx = add @ log
                             @ [arpingRoutine w (linkName localEgressLink) egressIP,
                                IptablesAddEgressIPRules egressIP mark]
                       in case AddEgressIPRules w egressIP mark of
                         Some e \<Rightarrow> (Some (IptablesAddFailed e), fx)
                       | None \<Rightarrow> (None, fx)))))"

definition releaseEgressIP ::
  "world \<Rightarrow> egressIPWatcher \<Rightarrow> string \<Rightarrow> string \<Rightarrow> egressError option \<times> effect list" where
  "releaseEgressIP w eip egressIP mark =
     (if egressIP = localIP eip then (None, [])
      else if testModeChan eip then (None, [TestModeSend (''release '' @ egressIP)])
      else case GetLinkDetails w (localIP eip) of
        Inl e \<Rightarrow> (Some (NoLinkDetails e), [])
      | Inr (localEgressLink, localEgressNet) \<Rightarrow>
          (let egressIPNet = egressIP @ ''/'' @ fmtDec (maskOnes localEgressNet)
           in case ParseAddr w egressIPNet of
             Inl e \<Rightarrow> (Some (BadEgressIP egressIPNet e), [])
           | Inr addr \<Rightarrow>
               (let del = [NetlinkAddrDel localEgressLink addr]
                in case AddrDel w localEgressLink addr of
                  Some (ErrnoOther e) \<Rightarrow>
                    (Some (AddrDelFailed egressIPNet (linkName localEgressLink) (ErrnoOther e)),
                     del)
                | Some EEXIST \<Rightarrow>
                    (Some (AddrDelFailed egressIPNet (linkName localEgressLink) EEXIST), del)
                | r \<Rightarrow>
                    (let log = (if r = Some EADDRNOTAVAIL
                                then [LogInfo ''Could not delete egress IP: no such address'']
                                else []);
                         fx = del @ log @ [IptablesDeleteEgressIPRules egressIP mark]
                     in case DeleteEgressIPRules w egressIP mark of
                       Some e \<Rightarrow> (Some (IptablesDelFailed e), fx)
                     | None \<Rightarrow> (None, fx)))))"

text \<open>
  \<^verbatim>\<open>addEgressIP\<close> and \<^verbatim>\<open>removeEgressIP\<close>. \<^verbatim>\<open>len(eip.monitorNodes)\<close> is the number
  of keys of the map.
\<close>

definition addEgressIP ::
  "egressIPWatcher \<Rightarrow> string \<Rightarrow> string \<Rightarrow> egressIPWatcher \<times> effect list" where
  "addEgressIP eip nip egressIP =
     (case monitorNodes eip nip of
        Some node \<Rightarrow>
          (eip \<lparr> monitorNodes :=
                   (monitorNodes eip)(nip \<mapsto> node \<lparr> egressIPs := insert egressIP (egressIPs node) \<rparr>) \<rparr>,
           [])
      | None \<Rightarrow>
          (let eip1 = eip \<lparr> monitorNodes :=
                   (monitorNodes eip)(nip \<mapsto>
                      \<lparr> nodeIP = nip, offline = False, egressIPs = {egressIP}, retries = 0 \<rparr>) \<rparr>
           in if card (dom (monitorNodes eip1)) = 1
              then (eip1 \<lparr> stop := Some (chansMade eip1), chansMade := Suc (chansMade eip1) \<rparr>,
                    [LogInfo (''Monitoring node '' @ nip), GoPollUntil (chansMade eip1)])
              else (eip1, [LogInfo (''Monitoring node '' @ nip)])))"

definition removeEgressIP ::
  "egressIPWatcher \<Rightarrow> string \<Rightarrow> string \<Rightarrow> egressIPWatcher \<times> effect list" where
  "removeEgressIP eip nip egressIP =
     (case monitorNodes eip nip of
        None \<Rightarrow> (eip, [])
      | Some node \<Rightarrow>
          (let node1 = node \<lparr> egressIPs := egressIPs node - {egressIP} \<rparr>;
               eip1 = eip \<lparr> monitorNodes := (monitorNodes eip)(nip \<mapsto> node1) \<rparr>
           in if egressIPs node1 = {}
              then (let eip2 = eip1 \<lparr> monitorNodes := (monitorNodes eip1)(nip := None) \<rparr>
                    in case stop eip2 of
                         Some ch \<Rightarrow>
                           if card (dom (monitorNodes eip2)) = 0
                           then (eip2 \<lparr> stop := None \<rparr>,
                                 [LogInfo (''Unmonitoring node '' @ nip), CloseChan ch])
                           else (eip2, [LogInfo (''Unmonitoring node '' @ nip)])
                       | None \<Rightarrow> (eip2, [LogInfo (''Unmonitoring node '' @ nip)]))
              else (eip1, [])))"

definition ClaimEgressIP ::
  "world \<Rightarrow> egressIPWatcher \<Rightarrow> uint32 \<Rightarrow> string \<Rightarrow> string \<Rightarrow> egressIPWatcher \<times> effect list"
  where
  "ClaimEgressIP w eip vnid egressIP nip =
     (if nip = localIP eip
      then (let mark = getMarkForVNID vnid (masqueradeBit eip);
                eip1 = eip \<lparr> iptablesMark := (iptablesMark eip)(egressIP \<mapsto> mark) \<rparr>
            in case assignEgressIP w eip1 egressIP mark of
                 (Some e, fx) \<Rightarrow> (eip1, fx @ [HandleError (ErrAssigning egressIP e)])
               | (None, fx) \<Rightarrow> (eip1, fx))
      else addEgressIP eip nip egressIP)"

definition ReleaseEgressIP ::
  "world \<Rightarrow> egressIPWatcher \<Rightarrow> string \<Rightarrow> string \<Rightarrow> egressIPWatcher \<times> effect list" where
  "ReleaseEgressIP w eip egressIP nip =
     (if nip = localIP eip
      then (let mark = markOf (iptablesMark eip) egressIP;
                eip1 = eip \<lparr> iptablesMark := (iptablesMark eip)(egressIP := None) \<rparr>
            in case releaseEgressIP w eip1 egressIP mark of
                 (Some e, fx) \<Rightarrow> (eip1, fx @ [HandleError (ErrReleasing egressIP e)])
               | (None, fx) \<Rightarrow> (eip1, fx))
      else removeEgressIP eip nip egressIP)"

definition SetNamespaceEgressNormal :: "world \<Rightarrow> uint32 \<Rightarrow> effect list" where
  "SetNamespaceEgressNormal w vnid =
     OvsSetNamespaceEgressNormal vnid #
     (case OvsNormal w vnid of Some e \<Rightarrow> [HandleError (ErrNamespaceRules vnid e)] | None \<Rightarrow> [])"

definition SetNamespaceEgressDropped :: "world \<Rightarrow> uint32 \<Rightarrow> effect list" where
  "SetNamespaceEgressDropped w vnid =
     OvsSetNamespaceEgressDropped vnid #
     (case OvsDropped w vnid of Some e \<Rightarrow> [HandleError (ErrNamespaceRules vnid e)] | None \<Rightarrow> [])"

text \<open>
  \<^verbatim>\<open>SetNamespaceEgressViaEgressIPs\<close>: one \<^verbatim>\<open>egressIPMetaData\<close> per assignment, in
  order, the mark read from \<^verbatim>\<open>iptablesMark\<close>.
\<close>

definition egressIPsMetaData ::
  "egressIPWatcher \<Rightarrow> EgressIPAssignment list \<Rightarrow> egressIPMetaData list" where
  "egressIPsMetaData eip activeEgressIPs =
     map (\<lambda>a. \<lparr> md_nodeIP = NodeIP a,
                md_packetMark = markOf (iptablesMark eip) (EgressIP a) \<rparr>) activeEgressIPs"

definition SetNamespaceEgressViaEgressIPs ::
  "world \<Rightarrow> egressIPWatcher \<Rightarrow> uint32 \<Rightarrow> EgressIPAssignment list \<Rightarrow> effect list" where
  "SetNamespaceEgressViaEgressIPs w eip vnid activeEgressIPs =
     (let md = egressIPsMetaData eip activeEgressIPs
      in OvsSetNamespaceEgressViaEgressIPs vnid md #
         (case OvsViaEgressIPs w vnid md of
            Some e \<Rightarrow> [HandleError (ErrNamespaceRules vnid e)] | None \<Rightarrow> []))"

text \<open>
  \<^verbatim>\<open>Synced\<close>: the stale-address sweep. It gives up, before touching anything, when the
  link, the label or the address list cannot be had.
\<close>

definition staleSweep :: "world \<Rightarrow> egressIPWatcher \<Rightarrow> Link \<Rightarrow> string \<Rightarrow> Addr list \<Rightarrow> effect list"
  where
  "staleSweep w eip link label addrs =
     concat (map (\<lambda>addr.
        if Label addr = label \<and> markOf (iptablesMark eip) (addrIP addr) = []
        then LogInfo (''Cleaning up stale egress IP '' @ addrIP addr) # NetlinkAddrDel link addr #
             (case AddrDel w link addr of Some e \<Rightarrow> [HandleError (ErrStaleCleanup e)] | None \<Rightarrow> [])
        else []) addrs)"

definition Synced :: "world \<Rightarrow> egressIPWatcher \<Rightarrow> effect list" where
  "Synced w eip =
     (case GetLinkDetails w (localIP eip) of
        Inl _ \<Rightarrow> []
      | Inr (link, _) \<Rightarrow>
          (case egressIPLabel link of
             Inl e \<Rightarrow> [HandleError (ErrStaleCheck e)]
           | Inr label \<Rightarrow>
               (case AddrList w link of
                  Inl e \<Rightarrow> [HandleError (ErrStaleList e)]
                | Inr addrs \<Rightarrow> staleSweep w eip link label addrs @ [IptablesSyncEgressIPRules])))"

text \<open>The tracker's callbacks, and the watcher run over a history of them.\<close>

datatype callback =
    CbClaim uint32 string string
  | CbRelease string string
  | CbNormal uint32
  | CbDropped uint32
  | CbViaEgressIPs uint32 "EgressIPAssignment list"
  | CbSynced
  | CbUpdateEgressCIDRs

fun deliver :: "world \<Rightarrow> egressIPWatcher \<Rightarrow> callback \<Rightarrow> egressIPWatcher \<times> effect list" where
  "deliver w eip (CbClaim vnid egressIP nip) = ClaimEgressIP w eip vnid egressIP nip"
| "deliver w eip (CbRelease egressIP nip) = ReleaseEgressIP w eip egressIP nip"
| "deliver w eip (CbNormal vnid) = (eip, SetNamespaceEgressNormal w vnid)"
| "deliver w eip (CbDropped vnid) = (eip, SetNamespaceEgressDropped w vnid)"
| "deliver w eip (CbViaEgressIPs vnid as) = (eip, SetNamespaceEgressViaEgressIPs w eip vnid as)"
| "deliver w eip CbSynced = (eip, Synced w eip)"
| "deliver w eip CbUpdateEgressCIDRs = (eip, [])"

fun deliverAll ::
  "world \<Rightarrow> egressIPWatcher \<Rightarrow> callback list \<Rightarrow> egressIPWatcher \<times> effect list" where
  "deliverAll w eip [] = (eip, [])"
| "deliverAll w eip (c # cs) =
     (case deliver w eip c of
        (eip1, fx) \<Rightarrow> (case deliverAll w eip1 cs of (eip2, fx2) \<Rightarrow> (eip2, fx @ fx2)))"


text \<open>
  What the stop channel has to satisfy, and what one callback may do to the poller: the
  watcher's invariant and the condition on one step, used to state the result for whole
  callback histories.
\<close>

definition watcher_inv :: "egressIPWatcher \<Rightarrow> bool" where
  "watcher_inv eip \<longleftrightarrow>
     finite (dom (monitorNodes eip)) \<and>
     ((stop eip \<noteq> None) = (dom (monitorNodes eip) \<noteq> {}))"

definition step_ok :: "egressIPWatcher \<Rightarrow> egressIPWatcher \<Rightarrow> effect list \<Rightarrow> bool" where
  "step_ok eip eip' fx \<longleftrightarrow>
     watcher_inv eip' \<and>
     ((\<exists>ch. GoPollUntil ch \<in> set fx) =
        (dom (monitorNodes eip) = {} \<and> dom (monitorNodes eip') \<noteq> {})) \<and>
     ((\<exists>ch. CloseChan ch \<in> set fx) =
        (dom (monitorNodes eip) \<noteq> {} \<and> dom (monitorNodes eip') = {})) \<and>
     (\<forall>ch. GoPollUntil ch \<in> set fx \<longrightarrow> stop eip' = Some ch) \<and>
     (\<forall>ch. CloseChan ch \<in> set fx \<longrightarrow> stop eip = Some ch)"

text \<open>
  Whether an egress IP is held by a local claim after a history of callbacks: a local
  \<^verbatim>\<open>ClaimEgressIP\<close> takes it, a local \<^verbatim>\<open>ReleaseEgressIP\<close> gives it back.
\<close>

fun locallyHeld :: "string \<Rightarrow> string \<Rightarrow> bool \<Rightarrow> callback list \<Rightarrow> bool" where
  "locallyHeld lip e h [] = h"
| "locallyHeld lip e h (CbClaim v e' nip # cs) =
     locallyHeld lip e (if nip = lip \<and> e' = e then True else h) cs"
| "locallyHeld lip e h (CbRelease e' nip # cs) =
     locallyHeld lip e (if nip = lip \<and> e' = e then False else h) cs"
| "locallyHeld lip e h (c # cs) = locallyHeld lip e h cs"

text \<open>
  Two environments for concrete runs: one where every external call succeeds on a link
  named \<^verbatim>\<open>eth0\<close>, and the same with a link name of thirteen characters.
\<close>

definition quietWorld :: world where
  "quietWorld =
     \<lparr> GetLinkDetails = (\<lambda>ip. Inr (\<lparr> linkName = ''eth0'' \<rparr>,
                                      \<lparr> netText = ''10.0.0.0/24'', maskOnes = 24 \<rparr>)),
       ParseAddr = (\<lambda>s. Inr \<lparr> addrIP = takeWhile (\<lambda>c. c \<noteq> CHR ''/'') s, addrText = s,
                              Label = [] \<rparr>),
       Contains = (\<lambda>n ip. True),
       AddrAdd = (\<lambda>l a. None),
       AddrDel = (\<lambda>l a. None),
       AddrList = (\<lambda>l. Inr []),
       ArpingFails = (\<lambda>f l ip. False),
       AddEgressIPRules = (\<lambda>ip m. None),
       DeleteEgressIPRules = (\<lambda>ip m. None),
       OvsNormal = (\<lambda>v. None),
       OvsDropped = (\<lambda>v. None),
       OvsViaEgressIPs = (\<lambda>v md. None) \<rparr>"

definition longNameWorld :: world where
  "longNameWorld =
     quietWorld \<lparr> GetLinkDetails := (\<lambda>ip. Inr (\<lparr> linkName = ''bond0.vlan100'' \<rparr>,
                                      \<lparr> netText = ''10.0.0.0/24'', maskOnes = 24 \<rparr>)) \<rparr>"


section \<open>CNI request broker\<close>

text \<open>
  The request and the pod request, as the structs of the source. \<^verbatim>\<open>CNIRequest.Config\<close> and
  \<^verbatim>\<open>CNIRequest.HostVeth\<close> carry the prefix \<open>cr_\<close>. The \<^verbatim>\<open>Result\<close> channel of a
  \<^verbatim>\<open>PodRequest\<close> is a channel made for the request; it holds nothing of the request and has
  no field here.
\<close>

type_synonym CNICommand = string

definition CNI_ADD :: CNICommand where "CNI_ADD = ''ADD''"
definition CNI_UPDATE :: CNICommand where "CNI_UPDATE = ''UPDATE''"
definition CNI_DEL :: CNICommand where "CNI_DEL = ''DEL''"

record CNIRequest =
  Env :: "string \<rightharpoonup> string"
  cr_Config :: string
  cr_HostVeth :: string

record PodRequest =
  Command :: CNICommand
  PodNamespace :: string
  PodName :: string
  SandboxID :: string
  Netns :: string
  HostVeth :: string
  AssignedIP :: string

record Config =
  MTU :: uint32
  ServiceNetworkCIDR :: string

record CNIServer =
  requestFunc :: "(PodRequest \<Rightarrow> string + string) option"
  rundir :: string
  config :: Config
  keepAlivesEnabled :: bool
  serving :: bool

text \<open>
  What the broker takes from Go's library and is not code of the repository:
  \<^verbatim>\<open>json.Unmarshal\<close> into a \<^verbatim>\<open>CNIRequest\<close> (an error text, or the request),
  \<^verbatim>\<open>strings.TrimSpace\<close>, and the \<^verbatim>\<open>%s\<close> rendering of a map. Results are stated for
  every such record.
\<close>

record golib =
  jsonUnmarshal :: "string \<Rightarrow> string + CNIRequest"
  TrimSpace :: "string \<Rightarrow> string"
  fmtMap :: "(string \<rightharpoonup> string) \<Rightarrow> string"

record response =
  status :: nat
  headers :: "(string \<times> string) list"
  body :: string

fun Split :: "string \<Rightarrow> char \<Rightarrow> string list" where
  "Split [] sep = [[]]"
| "Split (c # cs) sep =
     (if c = sep then [] # Split cs sep
      else (case Split cs sep of x # xs \<Rightarrow> (c # x) # xs | [] \<Rightarrow> [[c]]))"

fun gatherLoop ::
  "golib \<Rightarrow> string list \<Rightarrow> (string \<rightharpoonup> string) \<Rightarrow> string + (string \<rightharpoonup> string)" where
  "gatherLoop lib [] mapArgs = Inr mapArgs"
| "gatherLoop lib (arg # rest) mapArgs =
     (case Split arg (CHR ''='') of
        [k, v] \<Rightarrow> gatherLoop lib rest (mapArgs(TrimSpace lib k \<mapsto> TrimSpace lib v))
      | _ \<Rightarrow> Inl (''invalid CNI_ARG '' @ [CHR 0x27] @ arg @ [CHR 0x27]))"

definition gatherCNIArgs :: "golib \<Rightarrow> (string \<rightharpoonup> string) \<Rightarrow> string + (string \<rightharpoonup> string)" where
  "gatherCNIArgs lib env =
     (case env ''CNI_ARGS'' of
        None \<Rightarrow> Inl (''missing CNI_ARGS: '' @ [CHR 0x27] @ fmtMap lib env @ [CHR 0x27])
      | Some cniArgs \<Rightarrow> gatherLoop lib (Split cniArgs (CHR '';'')) Map.empty)"

definition cniRequestToPodRequest :: "golib \<Rightarrow> string \<Rightarrow> string + PodRequest" where
  "cniRequestToPodRequest lib b =
     (case jsonUnmarshal lib b of
        Inl err \<Rightarrow> Inl (''JSON unmarshal error: '' @ err)
      | Inr cr \<Rightarrow>
     (case Env cr ''CNI_COMMAND'' of
        None \<Rightarrow> Inl ''unexpected or missing CNI_COMMAND''
      | Some cmd \<Rightarrow>
     (case Env cr ''CNI_CONTAINERID'' of
        None \<Rightarrow> Inl ''missing CNI_CONTAINERID''
      | Some sandboxID \<Rightarrow>
     (case Env cr ''CNI_NETNS'' of
        None \<Rightarrow> Inl ''missing CNI_NETNS''
      | Some netns \<Rightarrow>
     (if cr_HostVeth cr = [] \<and> cmd = CNI_ADD then Inl ''missing HostVeth''
      else
     (case gatherCNIArgs lib (Env cr) of
        Inl err \<Rightarrow> Inl err
      | Inr cniArgs \<Rightarrow>
     (case cniArgs ''K8S_POD_NAMESPACE'' of
        None \<Rightarrow> Inl ''missing K8S_POD_NAMESPACE''
      | Some podNamespace \<Rightarrow>
     (case cniArgs ''K8S_POD_NAME'' of
        None \<Rightarrow> Inl ''missing K8S_POD_NAME''
      | Some podName \<Rightarrow>
          Inr \<lparr> Command = cmd, PodNamespace = podNamespace, PodName = podName,
                SandboxID = sandboxID, Netns = netns, HostVeth = cr_HostVeth cr,
                AssignedIP = [] \<rparr>))))))))"

definition http_Error :: "string \<Rightarrow> nat \<Rightarrow> response" where
  "http_Error msg code =
     \<lparr> status = code,
       headers = [(''Content-Type'', ''text/plain; charset=utf-8''),
                  (''X-Content-Type-Options'', ''nosniff'')],
       body = msg @ [CHR 0x0A] \<rparr>"

definition handleCNIRequest ::
  "golib \<Rightarrow> CNIServer \<Rightarrow> string \<Rightarrow> (CNIServer \<times> response \<times> PodRequest list) option" where
  "handleCNIRequest lib s b =
     (case cniRequestToPodRequest lib b of
        Inl err \<Rightarrow> Some (s, http_Error err 400, [])
      | Inr req \<Rightarrow>
          (case requestFunc s of
             None \<Rightarrow> None
           | Some f \<Rightarrow>
               (case f req of
                  Inl err \<Rightarrow> Some (s, http_Error err 400, [req])
                | Inr result \<Rightarrow>
                    Some (s, \<lparr> status = 200,
                               headers = [(''Content-Type'', ''application/json'')],
                               body = result \<rparr>, [req]))))"

definition pairOf :: "golib \<Rightarrow> string \<Rightarrow> (string \<times> string) option" where
  "pairOf lib seg =
     (case Split seg (CHR ''='') of
        [k, v] \<Rightarrow> Some (TrimSpace lib k, TrimSpace lib v) | _ \<Rightarrow> None)"

definition wellFormedArgs :: "golib \<Rightarrow> string \<Rightarrow> bool" where
  "wellFormedArgs lib a = (\<forall>seg \<in> set (Split a (CHR '';'')). pairOf lib seg \<noteq> None)"

definition argValue :: "golib \<Rightarrow> string \<Rightarrow> string \<Rightarrow> string option" where
  "argValue lib a key = map_of (rev (List.map_filter (pairOf lib) (Split a (CHR '';'')))) key"

definition asciiSpace :: "char \<Rightarrow> bool" where
  "asciiSpace c = (c \<in> {CHR 0x09, CHR 0x0A, CHR 0x0B, CHR 0x0C, CHR 0x0D, CHR '' ''})"

definition testLib :: golib where
  "testLib =
     \<lparr> jsonUnmarshal = (\<lambda>b. if b = ''S5'' then
           Inr \<lparr> Env = [''CNI_COMMAND'' \<mapsto> ''ADD'', ''CNI_CONTAINERID'' \<mapsto> ''abc'',
                        ''CNI_NETNS'' \<mapsto> ''/proc/1/ns/net'',
                        ''CNI_ARGS'' \<mapsto> ''K8S_POD_NAMESPACE=default;K8S_POD_NAME=p''],
                 cr_Config = [], cr_HostVeth = ''veth0'' \<rparr>
         else if b = ''S5-DEL'' then
           Inr \<lparr> Env = [''CNI_COMMAND'' \<mapsto> ''DEL'', ''CNI_CONTAINERID'' \<mapsto> ''abc'',
                        ''CNI_NETNS'' \<mapsto> ''/proc/1/ns/net'',
                        ''CNI_ARGS'' \<mapsto> ''IgnoreUnknown=1; K8S_POD_NAMESPACE = default;K8S_POD_NAME=q''],
                 cr_Config = [], cr_HostVeth = [] \<rparr>
         else if b = ''S6'' then
           Inr \<lparr> Env = [''CNI_COMMAND'' \<mapsto> ''ADD'',
                        ''CNI_NETNS'' \<mapsto> ''/proc/1/ns/net'',
                        ''CNI_ARGS'' \<mapsto> ''K8S_POD_NAMESPACE=default;K8S_POD_NAME=p''],
                 cr_Config = [], cr_HostVeth = ''veth0'' \<rparr>
         else Inl ''invalid character''),
       TrimSpace = (\<lambda>s. rev (dropWhile asciiSpace (rev (dropWhile asciiSpace s)))),
       fmtMap = (\<lambda>m. ''map[]'') \<rparr>"


section \<open>Broker startup and the run directory\<close>
























text \<open>Concrete servers, environments and run directories for the examples.\<close>

definition testServer :: CNIServer where
  "testServer =
     \<lparr> requestFunc = Some (\<lambda>req. if PodName req = ''p'' then Inr ''{}'' else Inl ''no such pod''),
       rundir = ''/var/run/openshift-sdn/cniserver'',
       config = \<lparr> MTU = 1450, ServiceNetworkCIDR = ''172.30.0.0/16'' \<rparr>,
       keepAlivesEnabled = False, serving = True \<rparr>"






section \<open>Master: egress IP manager\<close>

type_synonym Duration = nat

definition Second :: Duration where "Second = 1000000000"
definition pollInterval :: Duration where "pollInterval = 5 * Second"
definition repollInterval :: Duration where "repollInterval = Second"
definition maxRetries :: nat where "maxRetries = 2"

text \<open>
  Of a \<^verbatim>\<open>corev1.Node\<close> only the conditions are read, of a HostSubnet the name, the host IP
  and the egress IPs. The master's \<^verbatim>\<open>egressNode\<close> and its fields carry the suffix \<open>M\<close>,
  the node watcher's record having the same names.
\<close>

record NodeCondition =
  condType :: string
  condStatus :: string

definition NodeReady :: string where "NodeReady = ''Ready''"
definition ConditionFalse :: string where "ConditionFalse = ''False''"
definition ConditionUnknown :: string where "ConditionUnknown = ''Unknown''"

record Node =
  Conditions :: "NodeCondition list"

record HostSubnet =
  Host :: string
  HostIP :: string
  EgressIPs :: "string list"

record egressNodeM =
  ipM :: string
  nameM :: string
  offlineM :: bool
  retriesM :: nat

record egressIPManager =
  updatePending :: bool
  updatedAgain :: bool
  monitorNodesM :: "(string \<times> egressNodeM) list"
  stopM :: "nat option"
  chansMadeM :: nat

text \<open>
  The cluster as the manager sees it during one run of a function: the allocation the
  tracker computes, the HostSubnet and Node listers, the client's update (by attempt), and
  the tracker's \<^verbatim>\<open>Ping\<close>. A map is a list of pairs with distinct keys where the source
  ranges over it, the order of the list standing for the order of the iteration.
\<close>

datatype updateResult = UpdateOk | UpdateConflict string | UpdateFailed string

record cluster =
  ReallocateEgressIPs :: "(string \<times> string list) list"
  hostSubnetGet :: "string \<Rightarrow> string + HostSubnet"
  hostSubnetUpdate :: "nat \<Rightarrow> HostSubnet \<Rightarrow> updateResult"
  nodeGet :: "string \<Rightarrow> string + Node"
  Ping :: "string \<Rightarrow> Duration \<Rightarrow> bool"

datatype meffect =
    GoPollInfinite Duration
  | CallReallocateEgressIPs
  | HostSubnetsUpdate HostSubnet
  | HandleErrorM string
  | GoPoll nat
  | CloseStop nat
  | SetNodeOffline string bool
  | LogM string
  | SleepRest Duration

definition newEgressIPManager :: egressIPManager where
  "newEgressIPManager =
     \<lparr> updatePending = False, updatedAgain = False, monitorNodesM = [],
       stopM = None, chansMadeM = 0 \<rparr>"







definition nodeIsReady :: "Node \<Rightarrow> bool" where
  "nodeIsReady node =
     foldl (\<lambda>nodeReady cond.
              if condType cond = NodeReady \<and>
                 (condStatus cond = ConditionFalse \<or> condStatus cond = ConditionUnknown)
              then False else nodeReady)
       True (Conditions node)"

text \<open>
  \<^verbatim>\<open>check\<close>: the loop over the monitored nodes. A node whose Node object cannot be
  fetched ends the check with the error, a node that is not Ready is set offline and ends
  the check as well; both return \<^verbatim>\<open>false\<close> for the retry.
\<close>

fun checkNodes ::
  "cluster \<Rightarrow> bool \<Rightarrow> Duration \<Rightarrow> bool \<Rightarrow> (string \<times> egressNodeM) list
     \<Rightarrow> (string \<times> egressNodeM) list \<times> bool \<times> string option \<times> meffect list" where
  "checkNodes c retrying timeout needRetry [] = ([], needRetry, None, [])"
| "checkNodes c retrying timeout needRetry ((k, node) # rest) =
     (if retrying \<and> retriesM node = 0 then
        (case checkNodes c retrying timeout needRetry rest of
           (rest', r, e, fx) \<Rightarrow> ((k, node) # rest', r, e, fx))
      else
        case nodeGet c (nameM node) of
          Inl err \<Rightarrow> ((k, node) # rest, False, Some err, [])
        | Inr nn \<Rightarrow>
            if \<not> nodeIsReady nn then
              ((k, node \<lparr> offlineM := True \<rparr>) # rest, False, None,
               [LogM (''Node '' @ nameM node @ '' is not Ready''), SetNodeOffline (ipM node) True])
            else
              (let online = Ping c (ipM node) timeout in
               if offlineM node \<and> online then
                 (case checkNodes c retrying timeout needRetry rest of
                    (rest', r, e, fx) \<Rightarrow>
                      ((k, node \<lparr> offlineM := False \<rparr>) # rest', r, e,
                       LogM (''Node '' @ ipM node @ '' is back online'')
                         # SetNodeOffline (ipM node) False # fx))
               else if \<not> offlineM node \<and> \<not> online then
                 (if retriesM node + 1 > maxRetries then
                    (case checkNodes c retrying timeout needRetry rest of
                       (rest', r, e, fx) \<Rightarrow>
                         ((k, node \<lparr> retriesM := 0, offlineM := True \<rparr>) # rest', r, e,
                          LogM (''Node '' @ ipM node @ '' is offline'')
                            # SetNodeOffline (ipM node) True # fx))
                  else
                    (case checkNodes c retrying timeout True rest of
                       (rest', r, e, fx) \<Rightarrow>
                         ((k, node \<lparr> retriesM := retriesM node + 1 \<rparr>) # rest', r, e,
                          LogM (''Node '' @ ipM node @ '' may be offline... retrying'') # fx)))
               else
                 (case checkNodes c retrying timeout needRetry rest of
                    (rest', r, e, fx) \<Rightarrow> ((k, node) # rest', r, e, fx))))"

definition check ::
  "cluster \<Rightarrow> egressIPManager \<Rightarrow> bool \<Rightarrow> egressIPManager \<times> bool \<times> string option \<times> meffect list"
  where
  "check c eim retrying =
     (let timeout = (if retrying then repollInterval else pollInterval)
      in case checkNodes c retrying timeout False (monitorNodesM eim) of
           (nodes, needRetry, err, fx) \<Rightarrow> (eim \<lparr> monitorNodesM := nodes \<rparr>, needRetry, err, fx))"

text \<open>
  \<^verbatim>\<open>poll\<close>, one cluster per round of the loop until the stop channel is seen closed.
  In the source the loop body declares \<^verbatim>\<open>retry, err := eim.check(retry)\<close>: this is a
  new \<^verbatim>\<open>retry\<close>, and the argument is still the outer variable, which no statement
  assigns. The new one decides whether the loop sleeps.
\<close>

fun poll :: "cluster list \<Rightarrow> bool \<Rightarrow> egressIPManager \<Rightarrow> egressIPManager \<times> meffect list" where
  "poll [] retry eim = (eim, [])"
| "poll (c # cs) retry eim =
     (case check c eim retry of
        (eim1, retry', err, fx) \<Rightarrow>
          (let fx1 = fx
                 @ (case err of
                      Some e \<Rightarrow> [LogM ''Node may have been deleted or not exist anymore'']
                    | None \<Rightarrow> [])
                 @ (if \<not> retry' then [SleepRest pollInterval] else [])
           in case poll cs retry eim1 of (eim2, fx2) \<Rightarrow> (eim2, fx1 @ fx2)))"






fun visited :: "cluster \<Rightarrow> bool \<Rightarrow> (string \<times> egressNodeM) list \<Rightarrow> egressNodeM list" where
  "visited c retrying [] = []"
| "visited c retrying ((k, node) # rest) =
     (if retrying \<and> retriesM node = 0 then visited c retrying rest
      else case nodeGet c (nameM node) of
             Inl err \<Rightarrow> [node]
           | Inr nn \<Rightarrow> if nodeIsReady nn then node # visited c retrying rest else [node])"

definition declaredOffline :: "cluster \<Rightarrow> Duration \<Rightarrow> egressNodeM \<Rightarrow> bool" where
  "declaredOffline c timeout node =
     (case nodeGet c (nameM node) of
        Inl err \<Rightarrow> False
      | Inr nn \<Rightarrow>
          \<not> nodeIsReady nn \<or>
          (\<not> offlineM node \<and> \<not> Ping c (ipM node) timeout \<and> maxRetries \<le> retriesM node))"

definition failedProbes :: "cluster list \<Rightarrow> string \<Rightarrow> nat" where
  "failedProbes cs nip = length (filter (\<lambda>c. \<not> Ping c nip pollInterval) cs)"

text \<open>A cluster of Ready nodes with a fixed Ping answer, and a manager watching one node.\<close>

definition readyNode :: Node where
  "readyNode = \<lparr> Conditions = [\<lparr> condType = ''Ready'', condStatus = ''True'' \<rparr>] \<rparr>"

definition pingCluster :: "bool \<Rightarrow> cluster" where
  "pingCluster b =
     \<lparr> ReallocateEgressIPs = [],
       hostSubnetGet = (\<lambda>n. Inl ''not found''),
       hostSubnetUpdate = (\<lambda>a hs. UpdateOk),
       nodeGet = (\<lambda>n. Inr readyNode),
       Ping = (\<lambda>nip t. b) \<rparr>"

definition oneNodeManager :: egressIPManager where
  "oneNodeManager =
     newEgressIPManager \<lparr> monitorNodesM :=
       [(''10.0.0.3'', \<lparr> ipM = ''10.0.0.3'', nameM = ''nodeB'', offlineM = False, retriesM = 0 \<rparr>)],
       stopM := Some 0, chansMadeM := 1 \<rparr>"




section \<open>Properties of the rendering\<close>

lemma hexDigit_table:
  "\<forall>d \<in> set [0..<16]. hexDigitVal (hexDigit d) = d \<and> isHexDigit (hexDigit d)"
  by code_simp

lemma hexDigitVal_hexDigit: "d < 16 \<Longrightarrow> hexDigitVal (hexDigit d) = d"
  using hexDigit_table by simp

lemma isHexDigit_hexDigit: "d < 16 \<Longrightarrow> isHexDigit (hexDigit d)"
  using hexDigit_table by simp

lemma parseHex_snoc: "parseHex (s @ [c]) = 16 * parseHex s + hexDigitVal c"
  by (simp add: parseHex_def)

lemma parseHex_fmtHex: "parseHex (fmtHex n) = n"
proof (induction n rule: fmtHex.induct)
  case (1 n)
  show ?case
  proof (cases "n < 16")
    case True
    then show ?thesis
      by (simp add: fmtHex.simps [of n] parseHex_def hexDigitVal_hexDigit)
  next
    case False
    with 1 have "parseHex (fmtHex (n div 16)) = n div 16" by simp
    with False show ?thesis
      by (simp add: fmtHex.simps [of n] parseHex_snoc hexDigitVal_hexDigit)
  qed
qed

lemma hexDigitVal_zero: "hexDigitVal (CHR ''0'') = 0"
  by (simp add: hexDigitVal_def)

lemma parseHex_zeros: "parseHex (replicate k (CHR ''0'') @ s) = parseHex s"
  by (induction k) (simp_all add: parseHex_def hexDigitVal_zero)

lemma parseHex_padZero: "parseHex (padZero w (fmtHex n)) = n"
  by (simp add: padZero_def parseHex_zeros parseHex_fmtHex)

lemma length_fmtHex: "n < 16 ^ Suc k \<Longrightarrow> length (fmtHex n) \<le> Suc k"
proof (induction k arbitrary: n)
  case 0
  then show ?case by (simp add: fmtHex.simps [of n])
next
  case (Suc k)
  show ?case
  proof (cases "n < 16")
    case True
    then show ?thesis by (simp add: fmtHex.simps [of n])
  next
    case False
    from Suc.prems have "n div 16 < 16 ^ Suc k"
      by (simp add: less_mult_imp_div_less mult.commute)
    then have "length (fmtHex (n div 16)) \<le> Suc k" by (rule Suc.IH)
    with False show ?thesis by (simp add: fmtHex.simps [of n])
  qed
qed

lemma fmtHex_digits: "\<forall>c \<in> set (fmtHex n). isHexDigit c"
proof (induction n rule: fmtHex.induct)
  case (1 n)
  show ?case
  proof (cases "n < 16")
    case True
    then show ?thesis by (simp add: fmtHex.simps [of n] isHexDigit_hexDigit)
  next
    case False
    with 1 show ?thesis by (simp add: fmtHex.simps [of n] isHexDigit_hexDigit)
  qed
qed

lemma length_fmtHex_unat: "length (fmtHex (unat (v :: uint32))) \<le> 8"
proof -
  have "unat v < 2 ^ 32" using unsigned_less [of v] by simp
  then have "unat v < 16 ^ Suc 7" by simp
  then have "length (fmtHex (unat v)) \<le> Suc 7" by (rule length_fmtHex)
  then show ?thesis by simp
qed

lemma length_sprintf: "length (sprintf_0x08x v) = 10"
  using length_fmtHex_unat [of v] by (simp add: sprintf_0x08x_def padZero_def)

lemma sprintf_prefix: "take 2 (sprintf_0x08x v) = ''0x''"
  by (simp add: sprintf_0x08x_def)

lemma isHexDigit_zero: "isHexDigit (CHR ''0'')"
  by (simp add: isHexDigit_def)

lemma sprintf_digits: "\<forall>c \<in> set (drop 2 (sprintf_0x08x v)). isHexDigit c"
proof
  fix c assume "c \<in> set (drop 2 (sprintf_0x08x v))"
  then have "c = CHR ''0'' \<or> c \<in> set (fmtHex (unat v))"
    by (auto simp: sprintf_0x08x_def padZero_def)
  then show "isHexDigit c"
    using fmtHex_digits [of "unat v"] isHexDigit_zero by blast
qed

lemma sprintf_value: "parseHex (drop 2 (sprintf_0x08x v)) = unat v"
  by (simp add: sprintf_0x08x_def parseHex_padZero)

lemma sprintf_inj: "sprintf_0x08x a = sprintf_0x08x b \<Longrightarrow> a = b"
proof -
  assume "sprintf_0x08x a = sprintf_0x08x b"
  then have "parseHex (drop 2 (sprintf_0x08x a)) = parseHex (drop 2 (sprintf_0x08x b))"
    by simp
  then have "unat a = unat b" by (simp only: sprintf_value)
  then show "a = b" by (simp add: word_unat_eq_iff)
qed


section \<open>Properties of the mark\<close>

lemma and_single_bit: "k < 32 \<Longrightarrow> (v :: uint32) AND 2 ^ k \<noteq> 0 \<longleftrightarrow> bit v k"
proof
  assume k: "k < 32" and "v AND 2 ^ k \<noteq> 0"
  then obtain n where "bit (v AND 2 ^ k) n"
    by (auto simp: bit_eq_iff [where 'a = "32 word"])
  then show "bit v k" by (auto simp: bit_simps)
next
  assume k: "k < 32" and "bit v k"
  then have "bit (v AND 2 ^ k) k" by (simp add: bit_simps)
  then show "v AND 2 ^ k \<noteq> 0" by auto
qed

lemma flip_clears:
  fixes w :: uint32
  assumes k: "k < 32"
  shows "(if w AND 2 ^ k \<noteq> 0 then (w OR 0x01000000) XOR 2 ^ k else w) AND 2 ^ k = 0"
proof (cases "bit w k")
  case True
  have "\<not> bit (((w OR 0x01000000) XOR 2 ^ k) AND 2 ^ k) n" for n
    using True k by (auto simp: bit_and_iff bit_xor_iff bit_or_iff bit_exp_iff)
  then show ?thesis using True k by (simp add: bit_eq_iff and_single_bit)
next
  case False
  have "\<not> bit (w AND 2 ^ k) n" for n
    using False k by (auto simp: bit_and_iff bit_exp_iff)
  then show ?thesis using False k by (simp add: bit_eq_iff and_single_bit)
qed

lemma mark_clear_of_masquerade: "k < 32 \<Longrightarrow> markForVNID v (2 ^ k) AND 2 ^ k = 0"
  unfolding markForVNID_def Let_def by (rule flip_clears)

lemma small_bits:
  fixes v :: uint32
  assumes "v < 2 ^ 24" and "bit v n"
  shows "n < 24"
proof -
  from assms(1) have "v AND mask 24 = v" by (rule less_mask_eq)
  with assms(2) have "bit (v AND mask 24) n" by simp
  then show ?thesis by (simp add: bit_and_iff bit_mask_iff)
qed

lemma numeral_bits_24: "bit (16777216 :: int) n \<longleftrightarrow> n = 24"
proof -
  have "(16777216 :: int) = 2 ^ 24" by simp
  then show ?thesis by (simp only: bit_exp_iff) auto
qed

lemma numeral_bits_top: "bit (4278190080 :: int) n \<longleftrightarrow> 24 \<le> n \<and> n < 32"
proof -
  have "(4278190080 :: int) = push_bit 24 (mask 8)"
    by (simp add: push_bit_eq_mult mask_eq_exp_minus_1)
  then show ?thesis by (simp only: bit_push_bit_iff bit_mask_iff) auto
qed

lemma mark_zero_high:
  assumes k: "k < 32"
  shows "bit (markForVNID 0 (2 ^ k)) 25 \<or> bit (markForVNID 0 (2 ^ k)) 26"
  using k
  by (auto simp: markForVNID_def Let_def and_single_bit numeral_bits_top numeral_bits_24
      bit_xor_iff bit_or_iff bit_exp_iff)

lemma mark_small_low:
  assumes k: "k < 32" and v: "v \<noteq> 0" "v < 2 ^ 24" and n: "25 \<le> n"
  shows "\<not> bit (markForVNID v (2 ^ k)) n"
  using k v n small_bits [OF v(2), of n] small_bits [OF v(2), of k]
  by (auto simp: markForVNID_def Let_def and_single_bit numeral_bits_24
      bit_xor_iff bit_or_iff bit_exp_iff)

lemma mark_small_inj:
  assumes k: "k < 32" and v1: "v1 \<noteq> 0" "v1 < 2 ^ 24" and v2: "v2 \<noteq> 0" "v2 < 2 ^ 24"
    and eq: "markForVNID v1 (2 ^ k) = markForVNID v2 (2 ^ k)"
  shows "v1 = v2"
proof (rule bit_word_eqI)
  fix n assume "n < LENGTH(32)"
  from eq have e: "bit (markForVNID v1 (2 ^ k)) j = bit (markForVNID v2 (2 ^ k)) j" for j
    by simp
  show "bit v1 n = bit v2 n"
    using e [of n] e [of 24] k v1 v2 small_bits [OF v1(2), of n] small_bits [OF v2(2), of n]
      small_bits [OF v1(2), of k] small_bits [OF v2(2), of k]
      small_bits [OF v1(2), of 24] small_bits [OF v2(2), of 24]
    by (auto simp: markForVNID_def Let_def and_single_bit numeral_bits_24
        bit_xor_iff bit_or_iff bit_exp_iff split: if_splits)
qed

lemma mark_inj_24:
  assumes k: "k < 32" and v1: "v1 < 2 ^ 24" and v2: "v2 < 2 ^ 24"
    and eq: "markForVNID v1 (2 ^ k) = markForVNID v2 (2 ^ k)"
  shows "v1 = v2"
proof (cases "v1 = 0"; cases "v2 = 0")
  assume "v1 = 0" "v2 = 0" then show ?thesis by simp
next
  assume z: "v1 = 0" and nz: "v2 \<noteq> 0"
  from mark_zero_high [OF k] eq z
  have "bit (markForVNID v2 (2 ^ k)) 25 \<or> bit (markForVNID v2 (2 ^ k)) 26" by simp
  with mark_small_low [OF k nz v2] show ?thesis by auto
next
  assume nz: "v1 \<noteq> 0" and z: "v2 = 0"
  from mark_zero_high [OF k] eq z
  have "bit (markForVNID v1 (2 ^ k)) 25 \<or> bit (markForVNID v1 (2 ^ k)) 26" by simp
  with mark_small_low [OF k nz v1] show ?thesis by auto
next
  assume "v1 \<noteq> 0" "v2 \<noteq> 0"
  with k v1 v2 eq show ?thesis by (auto intro: mark_small_inj)
qed


lemma getMark_inj_24:
  assumes "k < 32" "v1 < 2 ^ 24" "v2 < 2 ^ 24"
    and "getMarkForVNID v1 (2 ^ k) = getMarkForVNID v2 (2 ^ k)"
  shows "v1 = v2"
proof -
  from assms(4) have "markForVNID v1 (2 ^ k) = markForVNID v2 (2 ^ k)"
    unfolding getMarkForVNID_def by (rule sprintf_inj)
  with assms(1-3) show ?thesis by (rule mark_inj_24)
qed

lemma getMark_value:
  "word_of_nat (parseHex (drop 2 (getMarkForVNID v m))) = markForVNID v m"
  by (simp add: getMarkForVNID_def sprintf_value)

lemma sprintf_42: "sprintf_0x08x 42 = ''0x0000002a''"
  by code_simp


section \<open>Claims about the packet mark\<close>

text \<open>
  C1 (as stated, refuted): the claim asks that the mark be injective over all 32-bit VNIDs.
  VNID 0 is replaced by \<^verbatim>\<open>0xff000000\<close>, so VNID 0 and VNID \<^verbatim>\<open>0xff000000\<close>
  get the same mark under the single-bit mask 1.
\<close>

theorem C1_full_range_collision:
  "getMarkForVNID 0 1 = getMarkForVNID 0xff000000 1 \<and> (0 :: uint32) \<noteq> 0xff000000"
  by (simp add: getMarkForVNID_def markForVNID_def)

text \<open>
  C1 (amended): for every VNID \<open>v\<close> and every single-bit mask \<open>2 ^ k\<close> the mark, both as the
  computed word and as the number the returned string denotes, has the masquerade bit
  clear; and on VNIDs below \<open>2 ^ 24\<close> the returned string determines the VNID.
\<close>

theorem C1_mark_determinism:
  "k < 32 \<Longrightarrow>
     markForVNID v (2 ^ k) AND 2 ^ k = 0 \<and>
     (word_of_nat (parseHex (drop 2 (getMarkForVNID v (2 ^ k)))) :: uint32) AND 2 ^ k = 0 \<and>
     (v1 < 2 ^ 24 \<longrightarrow> v2 < 2 ^ 24 \<longrightarrow>
        getMarkForVNID v1 (2 ^ k) = getMarkForVNID v2 (2 ^ k) \<longrightarrow> v1 = v2)"
  using getMark_inj_24 [of k v1 v2]
  by (simp add: getMark_value mark_clear_of_masquerade)

theorem C1_mark_determinism_witness:
  "(3 :: nat) < 32 \<and> (13 :: uint32) < 2 ^ 24 \<and>
   getMarkForVNID 13 (2 ^ 3) = getMarkForVNID 13 (2 ^ 3) \<and>
   markForVNID 13 (2 ^ 3) AND 2 ^ 3 = 0 \<and> markForVNID 13 (2 ^ 3) = 0x01000005"
  using C1_mark_determinism [of 3 13 13 13]
  by (simp add: markForVNID_def)

text \<open>
  C2: the mark is the VNID, with \<^verbatim>\<open>0xff000000\<close> substituted for VNID 0, and then, when
  that value intersects the masquerade bit, replaced by
  \<^verbatim>\<open>(value | 0x01000000) ^ masqueradeBit\<close>; the returned string is \<^verbatim>\<open>0x\<close> followed by
  exactly eight lower-case hexadecimal digits that denote the mark. VNID 42 with a
  masquerade bit it does not intersect gives \<^verbatim>\<open>0x0000002a\<close>.
\<close>

theorem C2_getMarkForVNID:
  "(vnid \<noteq> 0 \<and> vnid AND m = 0 \<longrightarrow> markForVNID vnid m = vnid) \<and>
   (vnid \<noteq> 0 \<and> vnid AND m \<noteq> 0 \<longrightarrow> markForVNID vnid m = (vnid OR 0x01000000) XOR m) \<and>
   (vnid = 0 \<and> 0xff000000 AND m = 0 \<longrightarrow> markForVNID vnid m = 0xff000000) \<and>
   (vnid = 0 \<and> 0xff000000 AND m \<noteq> 0 \<longrightarrow>
      markForVNID vnid m = (0xff000000 OR 0x01000000) XOR m) \<and>
   length (getMarkForVNID vnid m) = 10 \<and>
   take 2 (getMarkForVNID vnid m) = ''0x'' \<and>
   (\<forall>c \<in> set (drop 2 (getMarkForVNID vnid m)). isHexDigit c) \<and>
   parseHex (drop 2 (getMarkForVNID vnid m)) = unat (markForVNID vnid m) \<and>
   (42 AND m = 0 \<longrightarrow> getMarkForVNID 42 m = ''0x0000002a'')"
proof -
  have "42 AND m = 0 \<Longrightarrow> markForVNID 42 m = 42"
    by (simp add: markForVNID_def)
  then have "42 AND m = 0 \<longrightarrow> getMarkForVNID 42 m = ''0x0000002a''"
    by (simp add: getMarkForVNID_def sprintf_42)
  moreover have "\<forall>c \<in> set (drop 2 (getMarkForVNID vnid m)). isHexDigit c"
    unfolding getMarkForVNID_def by (rule sprintf_digits)
  ultimately show ?thesis
    by (simp add: markForVNID_def getMarkForVNID_def length_sprintf sprintf_prefix
        sprintf_value)
qed

theorem C2_getMarkForVNID_witness:
  "(42 :: uint32) \<noteq> 0 \<and> (42 :: uint32) AND 1 = 0 \<and> markForVNID 42 1 = 42 \<and>
   getMarkForVNID 42 1 = ''0x0000002a'' \<and>
   (43 :: uint32) AND 1 \<noteq> 0 \<and> markForVNID 43 1 = 0x0100002a \<and>
   (0xff000000 :: uint32) AND 1 = 0 \<and> markForVNID 0 1 = 0xff000000 \<and>
   (0xff000000 :: uint32) AND 0x80000000 \<noteq> 0 \<and> markForVNID 0 0x80000000 = 0x7f000000"
  using C2_getMarkForVNID [of 42 1] C2_getMarkForVNID [of 43 1]
    C2_getMarkForVNID [of 0 1] C2_getMarkForVNID [of 0 "0x80000000"]
  by simp

section \<open>The poller's stop channel\<close>

lemma card_insert_one:
  assumes "finite A" "k \<notin> A"
  shows "card (insert k A) = Suc 0 \<longleftrightarrow> A = {}"
  using assms by simp

lemma addEgressIP_step:
  assumes inv: "watcher_inv eip" and st: "addEgressIP eip nip e = (eip', fx)"
  shows "step_ok eip eip' fx"
proof -
  have fin: "finite (dom (monitorNodes eip))"
    and iff: "(stop eip \<noteq> None) = (dom (monitorNodes eip) \<noteq> {})"
    using inv by (simp_all add: watcher_inv_def)
  show ?thesis
  proof (cases "monitorNodes eip nip")
    case None
    then have notin: "nip \<notin> dom (monitorNodes eip)" by auto
    show ?thesis
    proof (cases "dom (monitorNodes eip) = {}")
      case True
      with st None fin iff notin show ?thesis
        by (auto simp: addEgressIP_def Let_def watcher_inv_def step_ok_def
            simp del: dom_eq_empty_conv)
    next
      case False
      with st None fin iff notin show ?thesis
        by (auto simp: addEgressIP_def Let_def watcher_inv_def step_ok_def card_insert_one
            simp del: dom_eq_empty_conv)
    qed
  next
    case (Some node)
    then have mem: "nip \<in> dom (monitorNodes eip)" by auto
    then have ne: "dom (monitorNodes eip) \<noteq> {}" by blast
    have "insert nip (dom (monitorNodes eip)) = dom (monitorNodes eip)"
      using mem by blast
    with st Some fin iff ne show ?thesis
      by (auto simp: addEgressIP_def watcher_inv_def step_ok_def simp del: dom_eq_empty_conv)
  qed
qed

lemma removeEgressIP_step:
  assumes inv: "watcher_inv eip" and st: "removeEgressIP eip nip e = (eip', fx)"
  shows "step_ok eip eip' fx"
proof -
  have fin: "finite (dom (monitorNodes eip))"
    and iff: "(stop eip \<noteq> None) = (dom (monitorNodes eip) \<noteq> {})"
    using inv by (simp_all add: watcher_inv_def)
  show ?thesis
  proof (cases "monitorNodes eip nip")
    case None
    with st inv show ?thesis
      by (auto simp: removeEgressIP_def step_ok_def)
  next
    case (Some node)
    then have mem: "nip \<in> dom (monitorNodes eip)" by auto
    then have ne: "dom (monitorNodes eip) \<noteq> {}" by blast
    then obtain ch where ch: "stop eip = Some ch" using iff by auto
    have ins: "insert nip (dom (monitorNodes eip)) = dom (monitorNodes eip)"
      using mem by blast
    have fin': "finite (dom (monitorNodes eip) - {nip})" using fin by simp
    show ?thesis
    proof (cases "egressIPs node - {e} = {}")
      case False
      with st Some fin iff ne ins show ?thesis
        by (auto simp: removeEgressIP_def Let_def watcher_inv_def step_ok_def
            simp del: dom_eq_empty_conv)
    next
      case True
      note emp = this
      show ?thesis
      proof (cases "dom (monitorNodes eip) - {nip} = {}")
        case True
        then have c0: "card (dom (monitorNodes eip) - {nip}) = 0" by (simp only: card.empty)
        have r: "eip' = eip\<lparr>monitorNodes := (monitorNodes eip)(nip := None), stop := None\<rparr>"
          "fx = [LogInfo (''Unmonitoring node '' @ nip), CloseChan ch]"
          using st Some ch emp c0
          by (simp_all add: removeEgressIP_def Let_def
              del: dom_eq_empty_conv card_Diff_singleton_if card_0_eq)
        have d: "dom (monitorNodes eip') = {}" using True by (simp add: r(1))
        show ?thesis
          unfolding step_ok_def watcher_inv_def d using ne ch by (simp add: r)
      next
        case False
        then have c0: "card (dom (monitorNodes eip) - {nip}) \<noteq> 0" using fin' by simp
        have r: "eip' = eip\<lparr>monitorNodes := (monitorNodes eip)(nip := None)\<rparr>"
          "fx = [LogInfo (''Unmonitoring node '' @ nip)]"
          using st Some ch emp c0
          by (simp_all add: removeEgressIP_def Let_def
              del: dom_eq_empty_conv card_Diff_singleton_if card_0_eq)
        have d: "dom (monitorNodes eip') = dom (monitorNodes eip) - {nip}" by (simp add: r(1))
        show ?thesis
          unfolding step_ok_def watcher_inv_def d using ne ch False fin' by (simp add: r)
      qed
    qed
  qed
qed


lemma assign_no_poll:
  "GoPollUntil ch \<notin> set (snd (assignEgressIP w eip e m)) \<and>
   CloseChan ch \<notin> set (snd (assignEgressIP w eip e m))"
  by (auto simp: assignEgressIP_def Let_def arpingRoutine_def
      split: sum.splits option.splits errno.splits prod.splits)

lemma release_no_poll:
  "GoPollUntil ch \<notin> set (snd (releaseEgressIP w eip e m)) \<and>
   CloseChan ch \<notin> set (snd (releaseEgressIP w eip e m))"
  by (auto simp: releaseEgressIP_def Let_def
      split: sum.splits option.splits errno.splits prod.splits)

lemma Synced_no_poll:
  "GoPollUntil ch \<notin> set (Synced w eip) \<and> CloseChan ch \<notin> set (Synced w eip)"
  by (auto simp: Synced_def staleSweep_def split: sum.splits option.splits prod.splits)

lemma step_ok_same:
  assumes "watcher_inv eip" "monitorNodes eip' = monitorNodes eip" "stop eip' = stop eip"
    "\<forall>ch. GoPollUntil ch \<notin> set fx \<and> CloseChan ch \<notin> set fx"
  shows "step_ok eip eip' fx"
  using assms by (auto simp: step_ok_def watcher_inv_def)

lemma local_claim_result:
  assumes "ClaimEgressIP w eip vnid e (localIP eip) = (eip', fx)"
  shows "eip' = eip \<lparr> iptablesMark :=
            (iptablesMark eip)(e \<mapsto> getMarkForVNID vnid (masqueradeBit eip)) \<rparr>"
    and "\<forall>ch. GoPollUntil ch \<notin> set fx \<and> CloseChan ch \<notin> set fx"
proof -
  let ?eip1 = "eip \<lparr> iptablesMark :=
            (iptablesMark eip)(e \<mapsto> getMarkForVNID vnid (masqueradeBit eip)) \<rparr>"
  let ?r = "assignEgressIP w ?eip1 e (getMarkForVNID vnid (masqueradeBit eip))"
  from assms show "eip' = ?eip1"
    by (auto simp: ClaimEgressIP_def Let_def split: prod.splits option.splits)
  from assms have "set fx \<subseteq> set (snd ?r) \<union> {HandleError (ErrAssigning e x) | x. True}"
    by (auto simp: ClaimEgressIP_def Let_def split: prod.splits option.splits)
  then show "\<forall>ch. GoPollUntil ch \<notin> set fx \<and> CloseChan ch \<notin> set fx"
    using assign_no_poll [of _ w ?eip1 e "getMarkForVNID vnid (masqueradeBit eip)"] by auto
qed

lemma local_release_result:
  assumes "ReleaseEgressIP w eip e (localIP eip) = (eip', fx)"
  shows "eip' = eip \<lparr> iptablesMark := (iptablesMark eip)(e := None) \<rparr>"
    and "\<forall>ch. GoPollUntil ch \<notin> set fx \<and> CloseChan ch \<notin> set fx"
proof -
  let ?eip1 = "eip \<lparr> iptablesMark := (iptablesMark eip)(e := None) \<rparr>"
  let ?r = "releaseEgressIP w ?eip1 e (markOf (iptablesMark eip) e)"
  from assms show "eip' = ?eip1"
    by (auto simp: ReleaseEgressIP_def Let_def split: prod.splits option.splits)
  from assms have "set fx \<subseteq> set (snd ?r) \<union> {HandleError (ErrReleasing e x) | x. True}"
    by (auto simp: ReleaseEgressIP_def Let_def split: prod.splits option.splits)
  then show "\<forall>ch. GoPollUntil ch \<notin> set fx \<and> CloseChan ch \<notin> set fx"
    using release_no_poll [of _ w ?eip1 e "markOf (iptablesMark eip) e"] by auto
qed

lemma deliver_step:
  assumes inv: "watcher_inv eip" and st: "deliver w eip c = (eip', fx)"
  shows "step_ok eip eip' fx"
proof (cases c)
  case (CbClaim vnid e nip)
  show ?thesis
  proof (cases "nip = localIP eip")
    case True
    with st CbClaim have "ClaimEgressIP w eip vnid e (localIP eip) = (eip', fx)" by simp
    from local_claim_result [OF this] inv show ?thesis by (intro step_ok_same) simp_all
  next
    case False
    with st CbClaim have "addEgressIP eip nip e = (eip', fx)" by (simp add: ClaimEgressIP_def)
    with inv show ?thesis by (rule addEgressIP_step)
  qed
next
  case (CbRelease e nip)
  show ?thesis
  proof (cases "nip = localIP eip")
    case True
    with st CbRelease have "ReleaseEgressIP w eip e (localIP eip) = (eip', fx)" by simp
    from local_release_result [OF this] inv show ?thesis by (intro step_ok_same) simp_all
  next
    case False
    with st CbRelease have "removeEgressIP eip nip e = (eip', fx)"
      by (simp add: ReleaseEgressIP_def)
    with inv show ?thesis by (rule removeEgressIP_step)
  qed
next
  case (CbNormal v)
  with st inv show ?thesis
    by (intro step_ok_same) (auto simp: SetNamespaceEgressNormal_def split: option.splits)
next
  case (CbDropped v)
  with st inv show ?thesis
    by (intro step_ok_same) (auto simp: SetNamespaceEgressDropped_def split: option.splits)
next
  case (CbViaEgressIPs v as)
  with st inv show ?thesis
    by (intro step_ok_same)
      (auto simp: SetNamespaceEgressViaEgressIPs_def Let_def split: option.splits)
next
  case CbSynced
  with st inv show ?thesis
    using Synced_no_poll [of _ w eip] by (intro step_ok_same) auto
next
  case CbUpdateEgressCIDRs
  with st inv show ?thesis by (intro step_ok_same) auto
qed

lemma watcher_inv_new: "watcher_inv (newEgressIPWatcher lip mb)"
  by (simp add: watcher_inv_def newEgressIPWatcher_def)

lemma deliverAll_inv:
  "watcher_inv eip \<Longrightarrow> deliverAll w eip cs = (eip', fx) \<Longrightarrow> watcher_inv eip'"
proof (induction cs arbitrary: eip eip' fx)
  case Nil
  then show ?case by simp
next
  case (Cons c cs)
  obtain e1 f1 where d: "deliver w eip c = (e1, f1)" by (cases "deliver w eip c")
  obtain e2 f2 where r: "deliverAll w e1 cs = (e2, f2)" by (cases "deliverAll w e1 cs")
  from deliver_step [OF Cons.prems(1) d] have "watcher_inv e1" by (simp add: step_ok_def)
  from Cons.IH [OF this r] Cons.prems(2) d r show ?case by simp
qed

text \<open>
  C9: after any history of tracker callbacks delivered to a new watcher (remote claims and
  releases are the only ones that reach \<^verbatim>\<open>addEgressIP\<close> and \<^verbatim>\<open>removeEgressIP\<close>),
  the stop channel is non-nil exactly when the monitored set is non-empty. One more
  callback starts the poller exactly when the set goes from empty to non-empty, on the
  channel that is then the stop channel, and closes a channel exactly when the set goes
  from non-empty to empty, namely the stop channel it had.
\<close>

theorem C9_stop_iff_monitored:
  assumes hist: "deliverAll w (newEgressIPWatcher lip mb) cs = (eip, fx)"
    and step: "deliver w eip c = (eip', fx')"
  shows "((stop eip \<noteq> None) = (dom (monitorNodes eip) \<noteq> {})) \<and>
         ((stop eip' \<noteq> None) = (dom (monitorNodes eip') \<noteq> {})) \<and>
         ((\<exists>ch. GoPollUntil ch \<in> set fx') =
            (dom (monitorNodes eip) = {} \<and> dom (monitorNodes eip') \<noteq> {})) \<and>
         ((\<exists>ch. CloseChan ch \<in> set fx') =
            (dom (monitorNodes eip) \<noteq> {} \<and> dom (monitorNodes eip') = {})) \<and>
         (\<forall>ch. GoPollUntil ch \<in> set fx' \<longrightarrow> stop eip' = Some ch) \<and>
         (\<forall>ch. CloseChan ch \<in> set fx' \<longrightarrow> stop eip = Some ch)"
proof -
  have inv: "watcher_inv eip" using watcher_inv_new hist by (rule deliverAll_inv)
  from deliver_step [OF inv step] inv show ?thesis
    by (simp add: step_ok_def watcher_inv_def)
qed


theorem C9_stop_iff_monitored_witness:
  "stop (fst (deliverAll quietWorld (newEgressIPWatcher ''10.0.0.2'' None)
            [CbClaim 42 ''192.168.1.100'' ''10.0.0.3''])) = Some 0 \<and>
   snd (deliver quietWorld
          (fst (deliverAll quietWorld (newEgressIPWatcher ''10.0.0.2'' None)
            [CbClaim 42 ''192.168.1.100'' ''10.0.0.3'']))
          (CbRelease ''192.168.1.100'' ''10.0.0.3''))
     = [LogInfo ''Unmonitoring node 10.0.0.3'', CloseChan 0] \<and>
   dom (monitorNodes (fst (deliver quietWorld
          (fst (deliverAll quietWorld (newEgressIPWatcher ''10.0.0.2'' None)
            [CbClaim 42 ''192.168.1.100'' ''10.0.0.3'']))
          (CbRelease ''192.168.1.100'' ''10.0.0.3'')))) = {}"
  using C9_stop_iff_monitored [of quietWorld "''10.0.0.2''" None
      "[CbClaim 42 ''192.168.1.100'' ''10.0.0.3'']"
      "fst (deliverAll quietWorld (newEgressIPWatcher ''10.0.0.2'' None)
            [CbClaim 42 ''192.168.1.100'' ''10.0.0.3''])"
      "snd (deliverAll quietWorld (newEgressIPWatcher ''10.0.0.2'' None)
            [CbClaim 42 ''192.168.1.100'' ''10.0.0.3''])"
      "CbRelease ''192.168.1.100'' ''10.0.0.3''"
      "fst (deliver quietWorld
          (fst (deliverAll quietWorld (newEgressIPWatcher ''10.0.0.2'' None)
            [CbClaim 42 ''192.168.1.100'' ''10.0.0.3'']))
          (CbRelease ''192.168.1.100'' ''10.0.0.3''))"
      "snd (deliver quietWorld
          (fst (deliverAll quietWorld (newEgressIPWatcher ''10.0.0.2'' None)
            [CbClaim 42 ''192.168.1.100'' ''10.0.0.3'']))
          (CbRelease ''192.168.1.100'' ''10.0.0.3''))"]
  by (simp add: newEgressIPWatcher_def ClaimEgressIP_def ReleaseEgressIP_def
      addEgressIP_def removeEgressIP_def Let_def)



section \<open>The mark table and remote claims\<close>

lemma deliver_localIP: "deliver w eip c = (eip', fx) \<Longrightarrow> localIP eip' = localIP eip"
proof (cases c)
  case (CbClaim vnid e nip)
  assume st: "deliver w eip c = (eip', fx)"
  show ?thesis
  proof (cases "nip = localIP eip")
    case True
    with st CbClaim have "ClaimEgressIP w eip vnid e (localIP eip) = (eip', fx)" by simp
    from local_claim_result(1) [OF this] show ?thesis by simp
  next
    case False
    with st CbClaim show ?thesis
      by (auto simp: ClaimEgressIP_def addEgressIP_def Let_def split: option.splits if_splits)
  qed
next
  case (CbRelease e nip)
  assume st: "deliver w eip c = (eip', fx)"
  show ?thesis
  proof (cases "nip = localIP eip")
    case True
    with st CbRelease have "ReleaseEgressIP w eip e (localIP eip) = (eip', fx)" by simp
    from local_release_result(1) [OF this] show ?thesis by simp
  next
    case False
    with st CbRelease show ?thesis
      by (auto simp: ReleaseEgressIP_def removeEgressIP_def Let_def
          split: option.splits if_splits)
  qed
qed auto

lemma deliver_mark:
  assumes st: "deliver w eip c = (eip', fx)"
  shows "(iptablesMark eip' e \<noteq> None) =
         locallyHeld (localIP eip) e (iptablesMark eip e \<noteq> None) [c]"
proof (cases c)
  case (CbClaim vnid e' nip)
  show ?thesis
  proof (cases "nip = localIP eip")
    case True
    with st CbClaim have "ClaimEgressIP w eip vnid e' (localIP eip) = (eip', fx)" by simp
    from local_claim_result(1) [OF this] CbClaim True show ?thesis by simp
  next
    case False
    with st CbClaim show ?thesis
      by (auto simp: ClaimEgressIP_def addEgressIP_def Let_def split: option.splits if_splits)
  qed
next
  case (CbRelease e' nip)
  show ?thesis
  proof (cases "nip = localIP eip")
    case True
    with st CbRelease have "ReleaseEgressIP w eip e' (localIP eip) = (eip', fx)" by simp
    from local_release_result(1) [OF this] CbRelease True show ?thesis by simp
  next
    case False
    with st CbRelease show ?thesis
      by (auto simp: ReleaseEgressIP_def removeEgressIP_def Let_def
          split: option.splits if_splits)
  qed
qed (use st in auto)

lemma locallyHeld_step:
  "locallyHeld lip e h (c # cs) = locallyHeld lip e (locallyHeld lip e h [c]) cs"
  by (cases c) simp_all

lemma deliverAll_mark:
  "deliverAll w eip cs = (eip', fx) \<Longrightarrow>
     (iptablesMark eip' e \<noteq> None) =
       locallyHeld (localIP eip) e (iptablesMark eip e \<noteq> None) cs"
proof (induction cs arbitrary: eip eip' fx)
  case Nil
  then show ?case by simp
next
  case (Cons c cs)
  obtain e1 f1 where d: "deliver w eip c = (e1, f1)" by (cases "deliver w eip c")
  obtain e2 f2 where r: "deliverAll w e1 cs = (e2, f2)" by (cases "deliverAll w e1 cs")
  have e2: "e2 = eip'" using Cons.prems d r by simp
  have "(iptablesMark e2 e \<noteq> None) =
          locallyHeld (localIP e1) e (iptablesMark e1 e \<noteq> None) cs"
    using r by (rule Cons.IH)
  also have "localIP e1 = localIP eip" using d by (rule deliver_localIP)
  also have "(iptablesMark e1 e \<noteq> None) =
          locallyHeld (localIP eip) e (iptablesMark eip e \<noteq> None) [c]"
    using d by (rule deliver_mark)
  finally show ?case
    unfolding e2 by (subst locallyHeld_step) simp
qed

text \<open>
  C10: take a history in which the egress IP \<open>e\<close> is claimed with a node IP other than the
  watcher's own, and in which no local claim of \<open>e\<close> is outstanding at the end (the tracker
  releases before it claims again). Then \<^verbatim>\<open>SetNamespaceEgressViaEgressIPs\<close> hands the
  OVS controller, for every assignment of \<open>e\<close>, the assignment's node IP with the empty
  string as packet mark.
\<close>

theorem C10_remote_claim_empty_mark:
  assumes hist: "deliverAll w (newEgressIPWatcher lip mb)
                   (cs1 @ CbClaim vnid e nip # cs2) = (eip, fx)"
    and remote: "nip \<noteq> lip"
    and nolocal: "\<not> locallyHeld lip e False (cs1 @ cs2)"
    and i: "i < length as" "EgressIP (as ! i) = e"
  shows "hd (SetNamespaceEgressViaEgressIPs w eip v as) =
           OvsSetNamespaceEgressViaEgressIPs v (egressIPsMetaData eip as) \<and>
         length (egressIPsMetaData eip as) = length as \<and>
         md_nodeIP (egressIPsMetaData eip as ! i) = NodeIP (as ! i) \<and>
         md_packetMark (egressIPsMetaData eip as ! i) = []"
proof -
  have skip: "locallyHeld lip e h (cs1 @ CbClaim vnid e nip # cs2) = locallyHeld lip e h (cs1 @ cs2)"
    for h
    using remote
  proof (induction cs1 arbitrary: h)
    case Nil
    then show ?case by simp
  next
    case (Cons c cs1)
    then show ?case by (cases c) simp_all
  qed
  have "(iptablesMark eip e \<noteq> None) =
          locallyHeld lip e False (cs1 @ CbClaim vnid e nip # cs2)"
    using deliverAll_mark [OF hist, of e] by (simp add: newEgressIPWatcher_def)
  with skip nolocal have "iptablesMark eip e = None" by simp
  with i show ?thesis
    by (simp add: SetNamespaceEgressViaEgressIPs_def egressIPsMetaData_def Let_def markOf_def)
qed


theorem C10_remote_claim_empty_mark_witness:
  "''10.0.0.3'' \<noteq> ''10.0.0.2'' \<and>
   \<not> locallyHeld ''10.0.0.2'' ''192.168.1.100'' False
       ([CbClaim 7 ''192.168.1.100'' ''10.0.0.2'', CbRelease ''192.168.1.100'' ''10.0.0.2''] @ []) \<and>
   egressIPsMetaData
     (fst (deliverAll quietWorld (newEgressIPWatcher ''10.0.0.2'' None)
        ([CbClaim 7 ''192.168.1.100'' ''10.0.0.2'', CbRelease ''192.168.1.100'' ''10.0.0.2'']
         @ CbClaim 42 ''192.168.1.100'' ''10.0.0.3'' # [])))
     [\<lparr> NodeIP = ''10.0.0.3'', EgressIP = ''192.168.1.100'' \<rparr>] ! 0
   = \<lparr> md_nodeIP = ''10.0.0.3'', md_packetMark = [] \<rparr>"
  using C10_remote_claim_empty_mark [of quietWorld "''10.0.0.2''" None
      "[CbClaim 7 ''192.168.1.100'' ''10.0.0.2'', CbRelease ''192.168.1.100'' ''10.0.0.2'']"
      42 "''192.168.1.100''" "''10.0.0.3''" "[]"
      "fst (deliverAll quietWorld (newEgressIPWatcher ''10.0.0.2'' None)
        ([CbClaim 7 ''192.168.1.100'' ''10.0.0.2'', CbRelease ''192.168.1.100'' ''10.0.0.2'']
         @ CbClaim 42 ''192.168.1.100'' ''10.0.0.3'' # []))"
      "snd (deliverAll quietWorld (newEgressIPWatcher ''10.0.0.2'' None)
        ([CbClaim 7 ''192.168.1.100'' ''10.0.0.2'', CbRelease ''192.168.1.100'' ''10.0.0.2'']
         @ CbClaim 42 ''192.168.1.100'' ''10.0.0.3'' # []))"
      0 "[\<lparr> NodeIP = ''10.0.0.3'', EgressIP = ''192.168.1.100'' \<rparr>]" 42]
  by (simp add: egressIPsMetaData_def)


section \<open>Link names too long for an address label\<close>

lemma fmtDec_24: "fmtDec 24 = ''24''"
  by code_simp

lemma mark_42: "getMarkForVNID 42 0 = ''0x0000002a''"
  by code_simp

text \<open>
  C8 (as stated, refuted): with the thirteen-character link name \<^verbatim>\<open>bond0.vlan100\<close> the
  label cannot be built, and yet a local claim adds the address, starts the gratuitous ARP
  and adds the iptables rule.
\<close>

theorem C8_long_link_name_still_claims:
  "egressIPLabel \<lparr> linkName = ''bond0.vlan100'' \<rparr> = Inl (LinkNameTooLong ''bond0.vlan100'') \<and>
   snd (ClaimEgressIP longNameWorld (newEgressIPWatcher ''10.0.0.2'' None) 42
          ''10.0.0.100'' ''10.0.0.2'') =
     [NetlinkAddrAdd \<lparr> linkName = ''bond0.vlan100'' \<rparr>
        \<lparr> addrIP = ''10.0.0.100'', addrText = ''10.0.0.100/24'', Label = [] \<rparr>,
      Go [Arping ''-A'' ''bond0.vlan100'' ''10.0.0.100'', Sleep2s,
          Arping ''-U'' ''bond0.vlan100'' ''10.0.0.100''],
      IptablesAddEgressIPRules ''10.0.0.100'' ''0x0000002a'']"
  by (simp add: egressIPLabel_def ClaimEgressIP_def assignEgressIP_def newEgressIPWatcher_def
      longNameWorld_def quietWorld_def Let_def fmtDec_24 mark_42 arpingRoutine_def)

text \<open>
  C8 (amended): when the link name plus \<^verbatim>\<open>:eip\<close> exceeds 15 characters,
  \<^verbatim>\<open>egressIPLabel\<close> fails; \<^verbatim>\<open>Synced\<close> logs that error and does nothing else (no stale
  address is removed, the iptables rules are not resynced); \<^verbatim>\<open>assignEgressIP\<close> drops the
  error and, where the address parses, lies in the local network and is added, performs the
  claim with an empty label: address assignment, gratuitous ARP and iptables mark rule.
\<close>

theorem C8_long_link_name:
  assumes link: "GetLinkDetails w (localIP eip) = Inr (link, net)"
    and long: "length (linkName link @ '':eip'') > 15"
  shows "egressIPLabel link = Inl (LinkNameTooLong (linkName link)) \<and>
         Synced w eip = [HandleError (ErrStaleCheck (LinkNameTooLong (linkName link)))] \<and>
         (egressIP \<noteq> localIP eip \<longrightarrow> \<not> testModeChan eip \<longrightarrow>
          ParseAddr w (egressIP @ ''/'' @ fmtDec (maskOnes net)) = Inr addr \<longrightarrow>
          Contains w net (addrIP addr) \<longrightarrow>
          AddrAdd w link (addr \<lparr> Label := [] \<rparr>) = None \<longrightarrow>
          assignEgressIP w eip egressIP mark =
            ((case AddEgressIPRules w egressIP mark of
                Some e \<Rightarrow> Some (IptablesAddFailed e) | None \<Rightarrow> None),
             [NetlinkAddrAdd link (addr \<lparr> Label := [] \<rparr>),
              arpingRoutine w (linkName link) egressIP,
              IptablesAddEgressIPRules egressIP mark]))"
proof -
  have lab: "egressIPLabel link = Inl (LinkNameTooLong (linkName link))"
    using long by (simp add: egressIPLabel_def Let_def)
  have syn: "Synced w eip = [HandleError (ErrStaleCheck (LinkNameTooLong (linkName link)))]"
    by (simp add: Synced_def link lab)
  have "assignEgressIP w eip egressIP mark =
            ((case AddEgressIPRules w egressIP mark of
                Some e \<Rightarrow> Some (IptablesAddFailed e) | None \<Rightarrow> None),
             [NetlinkAddrAdd link (addr \<lparr> Label := [] \<rparr>),
              arpingRoutine w (linkName link) egressIP,
              IptablesAddEgressIPRules egressIP mark])"
    if "egressIP \<noteq> localIP eip" "\<not> testModeChan eip"
      "ParseAddr w (egressIP @ ''/'' @ fmtDec (maskOnes net)) = Inr addr"
      "Contains w net (addrIP addr)" "AddrAdd w link (addr \<lparr> Label := [] \<rparr>) = None"
    using that by (simp add: assignEgressIP_def link lab Let_def split: option.splits)
  with lab syn show ?thesis by blast
qed

theorem C8_long_link_name_witness:
  "length (''bond0.vlan100'' @ '':eip'') > 15 \<and>
   Synced longNameWorld (newEgressIPWatcher ''10.0.0.2'' None) =
     [HandleError (ErrStaleCheck (LinkNameTooLong ''bond0.vlan100''))] \<and>
   assignEgressIP longNameWorld (newEgressIPWatcher ''10.0.0.2'' None)
       ''10.0.0.100'' ''0x0000002a'' =
     (None,
      [NetlinkAddrAdd \<lparr> linkName = ''bond0.vlan100'' \<rparr>
        \<lparr> addrIP = ''10.0.0.100'', addrText = ''10.0.0.100/24'', Label = [] \<rparr>,
       Go [Arping ''-A'' ''bond0.vlan100'' ''10.0.0.100'', Sleep2s,
          Arping ''-U'' ''bond0.vlan100'' ''10.0.0.100''],
       IptablesAddEgressIPRules ''10.0.0.100'' ''0x0000002a''])"
  using C8_long_link_name [of longNameWorld "newEgressIPWatcher ''10.0.0.2'' None"
      "\<lparr> linkName = ''bond0.vlan100'' \<rparr>" "\<lparr> netText = ''10.0.0.0/24'', maskOnes = 24 \<rparr>"
      "''10.0.0.100''" "\<lparr> addrIP = ''10.0.0.100'', addrText = ''10.0.0.100/24'', Label = [] \<rparr>"
      "''0x0000002a''"]
  by (simp add: longNameWorld_def quietWorld_def newEgressIPWatcher_def fmtDec_24
      arpingRoutine_def)

section \<open>Requests to the broker\<close>

lemma gatherLoop_ok:
  "\<forall>seg \<in> set segs. pairOf lib seg \<noteq> None \<Longrightarrow>
     gatherLoop lib segs m = Inr (m ++ map_of (rev (List.map_filter (pairOf lib) segs)))"
proof (induction segs arbitrary: m)
  case Nil
  then show ?case by simp
next
  case (Cons seg segs)
  from Cons.prems obtain k v where kv: "Split seg (CHR ''='') = [k, v]"
    by (auto simp: pairOf_def split: list.splits)
  then have p: "pairOf lib seg = Some (TrimSpace lib k, TrimSpace lib v)"
    by (simp add: pairOf_def)
  have "gatherLoop lib (seg # segs) m =
          gatherLoop lib segs (m(TrimSpace lib k \<mapsto> TrimSpace lib v))"
    using kv by simp
  also have "\<dots> = Inr (m(TrimSpace lib k \<mapsto> TrimSpace lib v) ++
                      map_of (rev (List.map_filter (pairOf lib) segs)))"
    using Cons.prems by (intro Cons.IH) simp
  also have "m(TrimSpace lib k \<mapsto> TrimSpace lib v) ++
                      map_of (rev (List.map_filter (pairOf lib) segs)) =
             m ++ map_of (rev (List.map_filter (pairOf lib) (seg # segs)))"
    by (simp add: p map_add_upd_left fun_eq_iff map_add_def
        split: option.splits)
  finally show ?case .
qed

lemma gatherLoop_bad:
  "\<exists>seg \<in> set segs. pairOf lib seg = None \<Longrightarrow> \<exists>e. gatherLoop lib segs m = Inl e"
proof (induction segs arbitrary: m)
  case Nil
  then show ?case by simp
next
  case (Cons seg segs)
  show ?case
  proof (cases "pairOf lib seg")
    case None
    then show ?thesis by (auto simp: pairOf_def split: list.splits)
  next
    case (Some p)
    then obtain k v where kv: "Split seg (CHR ''='') = [k, v]"
      by (auto simp: pairOf_def split: list.splits)
    from Some Cons.prems have "\<exists>seg \<in> set segs. pairOf lib seg = None" by auto
    from Cons.IH [OF this] kv show ?thesis by simp
  qed
qed

lemma gatherCNIArgs_ok:
  assumes "env ''CNI_ARGS'' = Some a" "wellFormedArgs lib a"
  shows "gatherCNIArgs lib env = Inr (argValue lib a)"
  using assms gatherLoop_ok [of "Split a (CHR '';'')" lib Map.empty]
  by (simp add: gatherCNIArgs_def wellFormedArgs_def argValue_def fun_eq_iff)

lemma gatherCNIArgs_bad:
  assumes "env ''CNI_ARGS'' = Some a" "\<not> wellFormedArgs lib a"
  shows "\<exists>e. gatherCNIArgs lib env = Inl e"
proof -
  from assms(2) have "\<exists>seg \<in> set (Split a (CHR '';'')). pairOf lib seg = None"
    by (simp add: wellFormedArgs_def del: not_None_eq)
  then have "\<exists>e. gatherLoop lib (Split a (CHR '';'')) Map.empty = Inl e"
    by (rule gatherLoop_bad)
  then show ?thesis using assms(1) by (simp add: gatherCNIArgs_def)
qed

lemma gatherCNIArgs_missing:
  assumes "env ''CNI_ARGS'' = Some a" "argValue lib a key = None"
  shows "(\<exists>e. gatherCNIArgs lib env = Inl e) \<or>
         (\<exists>m. gatherCNIArgs lib env = Inr m \<and> m key = None)"
proof (cases "wellFormedArgs lib a")
  case True
  with assms show ?thesis by (simp add: gatherCNIArgs_ok)
next
  case False
  with assms(1) show ?thesis by (simp add: gatherCNIArgs_bad)
qed

lemma request_error_response:
  assumes "cniRequestToPodRequest lib b = Inl msg"
  shows "handleCNIRequest lib s b =
           Some (s, \<lparr> status = 400,
                      headers = [(''Content-Type'', ''text/plain; charset=utf-8''),
                                 (''X-Content-Type-Options'', ''nosniff'')],
                      body = msg @ [CHR 0x0A] \<rparr>, [])"
  using assms by (simp add: handleCNIRequest_def http_Error_def)

lemma malformed_is_error:
  assumes "(\<exists>e. jsonUnmarshal lib b = Inl e) \<or>
           (\<exists>cr. jsonUnmarshal lib b = Inr cr \<and>
              (Env cr ''CNI_COMMAND'' = None \<or>
               Env cr ''CNI_CONTAINERID'' = None \<or>
               Env cr ''CNI_NETNS'' = None \<or>
               (cr_HostVeth cr = [] \<and> Env cr ''CNI_COMMAND'' = Some CNI_ADD) \<or>
               Env cr ''CNI_ARGS'' = None \<or>
               (\<exists>a. Env cr ''CNI_ARGS'' = Some a \<and>
                    (argValue lib a ''K8S_POD_NAMESPACE'' = None \<or>
                     argValue lib a ''K8S_POD_NAME'' = None))))"
  shows "\<exists>msg. cniRequestToPodRequest lib b = Inl msg"
  using assms
proof (elim disjE exE conjE)
  fix e assume "jsonUnmarshal lib b = Inl e"
  then show ?thesis by (simp add: cniRequestToPodRequest_def)
next
  fix cr assume "jsonUnmarshal lib b = Inr cr" "Env cr ''CNI_COMMAND'' = None"
  then show ?thesis by (simp add: cniRequestToPodRequest_def)
next
  fix cr assume "jsonUnmarshal lib b = Inr cr" "Env cr ''CNI_CONTAINERID'' = None"
  then show ?thesis by (simp add: cniRequestToPodRequest_def split: option.splits)
next
  fix cr assume "jsonUnmarshal lib b = Inr cr" "Env cr ''CNI_NETNS'' = None"
  then show ?thesis by (simp add: cniRequestToPodRequest_def split: option.splits)
next
  fix cr assume "jsonUnmarshal lib b = Inr cr" "cr_HostVeth cr = []"
    "Env cr ''CNI_COMMAND'' = Some CNI_ADD"
  then show ?thesis by (simp add: cniRequestToPodRequest_def split: option.splits)
next
  fix cr assume "jsonUnmarshal lib b = Inr cr" "Env cr ''CNI_ARGS'' = None"
  then show ?thesis
    by (simp add: cniRequestToPodRequest_def gatherCNIArgs_def split: option.splits)
next
  fix cr a assume "jsonUnmarshal lib b = Inr cr" "Env cr ''CNI_ARGS'' = Some a"
    "argValue lib a ''K8S_POD_NAMESPACE'' = None"
  then show ?thesis
    using gatherCNIArgs_missing [of "Env cr" a lib "''K8S_POD_NAMESPACE''"]
    by (auto simp: cniRequestToPodRequest_def split: option.splits)
next
  fix cr a assume "jsonUnmarshal lib b = Inr cr" "Env cr ''CNI_ARGS'' = Some a"
    "argValue lib a ''K8S_POD_NAME'' = None"
  then show ?thesis
    using gatherCNIArgs_missing [of "Env cr" a lib "''K8S_POD_NAME''"]
    by (auto simp: cniRequestToPodRequest_def split: option.splits)
qed

text \<open>
  C3: a request whose body does not unmarshal, or whose environment lacks
  \<^verbatim>\<open>CNI_COMMAND\<close>, \<^verbatim>\<open>CNI_CONTAINERID\<close>, \<^verbatim>\<open>CNI_NETNS\<close> or \<^verbatim>\<open>CNI_ARGS\<close>, or whose
  \<^verbatim>\<open>CNI_ARGS\<close> give no value to \<^verbatim>\<open>K8S_POD_NAMESPACE\<close> or to \<^verbatim>\<open>K8S_POD_NAME\<close>, or
  that is an \<^verbatim>\<open>ADD\<close> with an empty \<^verbatim>\<open>hostVeth\<close>, is answered with status 400 and a body
  that is the error text followed by a newline; the handler is not called and the server is
  returned as it was. With \<^verbatim>\<open>CNI_COMMAND\<close> present and \<^verbatim>\<open>CNI_CONTAINERID\<close> absent the
  text is \<^verbatim>\<open>missing CNI_CONTAINERID\<close>.
\<close>

theorem C3_malformed_request:
  assumes "(\<exists>e. jsonUnmarshal lib b = Inl e) \<or>
           (\<exists>cr. jsonUnmarshal lib b = Inr cr \<and>
              (Env cr ''CNI_COMMAND'' = None \<or>
               Env cr ''CNI_CONTAINERID'' = None \<or>
               Env cr ''CNI_NETNS'' = None \<or>
               (cr_HostVeth cr = [] \<and> Env cr ''CNI_COMMAND'' = Some CNI_ADD) \<or>
               Env cr ''CNI_ARGS'' = None \<or>
               (\<exists>a. Env cr ''CNI_ARGS'' = Some a \<and>
                    (argValue lib a ''K8S_POD_NAMESPACE'' = None \<or>
                     argValue lib a ''K8S_POD_NAME'' = None))))"
  shows "(\<exists>msg. cniRequestToPodRequest lib b = Inl msg \<and>
            handleCNIRequest lib s b =
              Some (s, \<lparr> status = 400,
                         headers = [(''Content-Type'', ''text/plain; charset=utf-8''),
                                    (''X-Content-Type-Options'', ''nosniff'')],
                         body = msg @ [CHR 0x0A] \<rparr>, [])) \<and>
         (\<forall>cr cmd. jsonUnmarshal lib b = Inr cr \<longrightarrow> Env cr ''CNI_COMMAND'' = Some cmd \<longrightarrow>
            Env cr ''CNI_CONTAINERID'' = None \<longrightarrow>
            cniRequestToPodRequest lib b = Inl ''missing CNI_CONTAINERID'')"
proof -
  from malformed_is_error [OF assms] obtain msg where
    "cniRequestToPodRequest lib b = Inl msg" ..
  moreover from this have "handleCNIRequest lib s b =
              Some (s, \<lparr> status = 400,
                         headers = [(''Content-Type'', ''text/plain; charset=utf-8''),
                                    (''X-Content-Type-Options'', ''nosniff'')],
                         body = msg @ [CHR 0x0A] \<rparr>, [])"
    by (rule request_error_response)
  moreover have "\<forall>cr cmd. jsonUnmarshal lib b = Inr cr \<longrightarrow> Env cr ''CNI_COMMAND'' = Some cmd \<longrightarrow>
            Env cr ''CNI_CONTAINERID'' = None \<longrightarrow>
            cniRequestToPodRequest lib b = Inl ''missing CNI_CONTAINERID''"
    by (simp add: cniRequestToPodRequest_def)
  ultimately show ?thesis by blast
qed

theorem C3_malformed_request_witness:
  "handleCNIRequest testLib testServer ''S6'' =
     Some (testServer,
           \<lparr> status = 400,
             headers = [(''Content-Type'', ''text/plain; charset=utf-8''),
                        (''X-Content-Type-Options'', ''nosniff'')],
             body = ''missing CNI_CONTAINERID'' @ [CHR 0x0A] \<rparr>, []) \<and>
   (\<exists>msg. handleCNIRequest testLib testServer ''not json'' =
     Some (testServer,
           \<lparr> status = 400,
             headers = [(''Content-Type'', ''text/plain; charset=utf-8''),
                        (''X-Content-Type-Options'', ''nosniff'')],
             body = msg @ [CHR 0x0A] \<rparr>, []))"
proof -
  have a: "\<exists>cr. jsonUnmarshal testLib ''S6'' = Inr cr \<and> Env cr ''CNI_CONTAINERID'' = None"
    by (simp add: testLib_def)
  have b: "\<exists>e. jsonUnmarshal testLib ''not json'' = Inl e"
    by (simp add: testLib_def)
  have c: "\<exists>cr cmd. jsonUnmarshal testLib ''S6'' = Inr cr \<and> Env cr ''CNI_COMMAND'' = Some cmd \<and>
            Env cr ''CNI_CONTAINERID'' = None"
    by (simp add: testLib_def)
  from a have a': "(\<exists>e. jsonUnmarshal testLib ''S6'' = Inl e) \<or>
           (\<exists>cr. jsonUnmarshal testLib ''S6'' = Inr cr \<and>
              (Env cr ''CNI_COMMAND'' = None \<or>
               Env cr ''CNI_CONTAINERID'' = None \<or>
               Env cr ''CNI_NETNS'' = None \<or>
               (cr_HostVeth cr = [] \<and> Env cr ''CNI_COMMAND'' = Some CNI_ADD) \<or>
               Env cr ''CNI_ARGS'' = None \<or>
               (\<exists>a. Env cr ''CNI_ARGS'' = Some a \<and>
                    (argValue testLib a ''K8S_POD_NAMESPACE'' = None \<or>
                     argValue testLib a ''K8S_POD_NAME'' = None))))" by blast
  from b have b': "(\<exists>e. jsonUnmarshal testLib ''not json'' = Inl e) \<or>
           (\<exists>cr. jsonUnmarshal testLib ''not json'' = Inr cr \<and>
              (Env cr ''CNI_COMMAND'' = None \<or>
               Env cr ''CNI_CONTAINERID'' = None \<or>
               Env cr ''CNI_NETNS'' = None \<or>
               (cr_HostVeth cr = [] \<and> Env cr ''CNI_COMMAND'' = Some CNI_ADD) \<or>
               Env cr ''CNI_ARGS'' = None \<or>
               (\<exists>a. Env cr ''CNI_ARGS'' = Some a \<and>
                    (argValue testLib a ''K8S_POD_NAMESPACE'' = None \<or>
                     argValue testLib a ''K8S_POD_NAME'' = None))))" by blast
  from C3_malformed_request [OF a', of testServer] c
  have "handleCNIRequest testLib testServer ''S6'' =
     Some (testServer,
           \<lparr> status = 400,
             headers = [(''Content-Type'', ''text/plain; charset=utf-8''),
                        (''X-Content-Type-Options'', ''nosniff'')],
             body = ''missing CNI_CONTAINERID'' @ [CHR 0x0A] \<rparr>, [])"
    by (metis sum.inject(1))
  moreover from C3_malformed_request [OF b', of testServer]
  have "\<exists>msg. handleCNIRequest testLib testServer ''not json'' =
     Some (testServer,
           \<lparr> status = 400,
             headers = [(''Content-Type'', ''text/plain; charset=utf-8''),
                        (''X-Content-Type-Options'', ''nosniff'')],
             body = msg @ [CHR 0x0A] \<rparr>, [])" by blast
  ultimately show ?thesis by blast
qed

text \<open>
  C4: a request that unmarshals, has the three required environment keys, a host veth when
  it is an \<^verbatim>\<open>ADD\<close>, and well-formed \<^verbatim>\<open>CNI_ARGS\<close> that give values to
  \<^verbatim>\<open>K8S_POD_NAMESPACE\<close> and \<^verbatim>\<open>K8S_POD_NAME\<close>, reaches the handler exactly once, as the pod
  request with those fields. When the handler returns bytes the answer is status 200 with
  \<^verbatim>\<open>Content-Type: application/json\<close> and exactly those bytes as body; when it returns an
  error the answer is status 400 with the error text.
\<close>

theorem C4_wellformed_request:
  assumes "jsonUnmarshal lib b = Inr cr"
    and "Env cr ''CNI_COMMAND'' = Some cmd"
    and "Env cr ''CNI_CONTAINERID'' = Some cid"
    and "Env cr ''CNI_NETNS'' = Some netns"
    and "cmd = CNI_ADD \<longrightarrow> cr_HostVeth cr \<noteq> []"
    and "Env cr ''CNI_ARGS'' = Some a"
    and "wellFormedArgs lib a"
    and "argValue lib a ''K8S_POD_NAMESPACE'' = Some ns"
    and "argValue lib a ''K8S_POD_NAME'' = Some nm"
    and "requestFunc s = Some h"
    and "req = \<lparr> Command = cmd, PodNamespace = ns, PodName = nm, SandboxID = cid,
                 Netns = netns, HostVeth = cr_HostVeth cr, AssignedIP = [] \<rparr>"
  shows "cniRequestToPodRequest lib b = Inr req \<and>
         handleCNIRequest lib s b =
           Some (s,
                 (case h req of
                    Inl err \<Rightarrow>
                      \<lparr> status = 400,
                        headers = [(''Content-Type'', ''text/plain; charset=utf-8''),
                                   (''X-Content-Type-Options'', ''nosniff'')],
                        body = err @ [CHR 0x0A] \<rparr>
                  | Inr responseBytes \<Rightarrow>
                      \<lparr> status = 200,
                        headers = [(''Content-Type'', ''application/json'')],
                        body = responseBytes \<rparr>),
                 [req])"
proof -
  have g: "gatherCNIArgs lib (Env cr) = Inr (argValue lib a)"
    using assms(6,7) by (rule gatherCNIArgs_ok)
  have r: "cniRequestToPodRequest lib b = Inr req"
    using assms(1-5,8,9,11) by (auto simp: cniRequestToPodRequest_def g)
  then show ?thesis
    using assms(10) by (simp add: handleCNIRequest_def http_Error_def split: sum.splits)
qed

lemma S5_wellFormed:
  "wellFormedArgs testLib ''K8S_POD_NAMESPACE=default;K8S_POD_NAME=p''"
  "wellFormedArgs testLib ''IgnoreUnknown=1; K8S_POD_NAMESPACE = default;K8S_POD_NAME=q''"
  by (simp_all add: wellFormedArgs_def pairOf_def testLib_def)

lemma S5_values:
  "argValue testLib ''K8S_POD_NAMESPACE=default;K8S_POD_NAME=p'' ''K8S_POD_NAMESPACE''
     = Some ''default''"
  "argValue testLib ''K8S_POD_NAMESPACE=default;K8S_POD_NAME=p'' ''K8S_POD_NAME'' = Some ''p''"
  "argValue testLib ''IgnoreUnknown=1; K8S_POD_NAMESPACE = default;K8S_POD_NAME=q''
     ''K8S_POD_NAMESPACE'' = Some ''default''"
  "argValue testLib ''IgnoreUnknown=1; K8S_POD_NAMESPACE = default;K8S_POD_NAME=q''
     ''K8S_POD_NAME'' = Some ''q''"
  by (simp_all add: argValue_def pairOf_def testLib_def asciiSpace_def)

theorem C4_wellformed_request_witness:
  "handleCNIRequest testLib testServer ''S5'' =
     Some (testServer,
           \<lparr> status = 200, headers = [(''Content-Type'', ''application/json'')],
             body = ''{}'' \<rparr>,
           [\<lparr> Command = ''ADD'', PodNamespace = ''default'', PodName = ''p'',
              SandboxID = ''abc'', Netns = ''/proc/1/ns/net'', HostVeth = ''veth0'',
              AssignedIP = [] \<rparr>]) \<and>
   handleCNIRequest testLib testServer ''S5-DEL'' =
     Some (testServer,
           \<lparr> status = 400,
             headers = [(''Content-Type'', ''text/plain; charset=utf-8''),
                        (''X-Content-Type-Options'', ''nosniff'')],
             body = ''no such pod'' @ [CHR 0x0A] \<rparr>,
           [\<lparr> Command = ''DEL'', PodNamespace = ''default'', PodName = ''q'',
              SandboxID = ''abc'', Netns = ''/proc/1/ns/net'', HostVeth = [],
              AssignedIP = [] \<rparr>])"
  using C4_wellformed_request [of testLib "''S5''"
      "\<lparr> Env = [''CNI_COMMAND'' \<mapsto> ''ADD'', ''CNI_CONTAINERID'' \<mapsto> ''abc'',
                        ''CNI_NETNS'' \<mapsto> ''/proc/1/ns/net'',
                        ''CNI_ARGS'' \<mapsto> ''K8S_POD_NAMESPACE=default;K8S_POD_NAME=p''],
                 cr_Config = [], cr_HostVeth = ''veth0'' \<rparr>"
      "''ADD''" "''abc''" "''/proc/1/ns/net''"
      "''K8S_POD_NAMESPACE=default;K8S_POD_NAME=p''" "''default''" "''p''" testServer
      "\<lambda>req. if PodName req = ''p'' then Inr ''{}'' else Inl ''no such pod''"
      "\<lparr> Command = ''ADD'', PodNamespace = ''default'', PodName = ''p'',
              SandboxID = ''abc'', Netns = ''/proc/1/ns/net'', HostVeth = ''veth0'',
              AssignedIP = [] \<rparr>"]
    C4_wellformed_request [of testLib "''S5-DEL''"
      "\<lparr> Env = [''CNI_COMMAND'' \<mapsto> ''DEL'', ''CNI_CONTAINERID'' \<mapsto> ''abc'',
                        ''CNI_NETNS'' \<mapsto> ''/proc/1/ns/net'',
                        ''CNI_ARGS'' \<mapsto> ''IgnoreUnknown=1; K8S_POD_NAMESPACE = default;K8S_POD_NAME=q''],
                 cr_Config = [], cr_HostVeth = [] \<rparr>"
      "''DEL''" "''abc''" "''/proc/1/ns/net''"
      "''IgnoreUnknown=1; K8S_POD_NAMESPACE = default;K8S_POD_NAME=q''" "''default''" "''q''"
      testServer
      "\<lambda>req. if PodName req = ''p'' then Inr ''{}'' else Inl ''no such pod''"
      "\<lparr> Command = ''DEL'', PodNamespace = ''default'', PodName = ''q'',
              SandboxID = ''abc'', Netns = ''/proc/1/ns/net'', HostVeth = [],
              AssignedIP = [] \<rparr>"]
    S5_wellFormed S5_values
  by (simp add: testLib_def testServer_def CNI_ADD_def)



section \<open>Starting the broker\<close>














section \<open>Debouncing of reallocation\<close>














section \<open>Declaring nodes offline\<close>

lemma checkNodes_offline_iff:
  "checkNodes c retrying timeout nr nodes = (nodes', nr', err, fx) \<Longrightarrow>
     (SetNodeOffline x True \<in> set fx) =
       (\<exists>node \<in> set (visited c retrying nodes). ipM node = x \<and> declaredOffline c timeout node)"
proof (induction nodes arbitrary: nr nodes' nr' err fx)
  case Nil
  then show ?case by simp
next
  case (Cons kn rest)
  obtain k node where kn: "kn = (k, node)" by (cases kn)
  show ?case
  proof (cases "retrying \<and> retriesM node = 0")
    case True
    obtain r1 n1 e1 f1 where r: "checkNodes c retrying timeout nr rest = (r1, n1, e1, f1)"
      by (cases "checkNodes c retrying timeout nr rest") auto
    from Cons.IH [OF r] Cons.prems kn True r show ?thesis by auto
  next
    case False
    note probed = this
    show ?thesis
    proof (cases "nodeGet c (nameM node)")
      case (Inl e)
      with Cons.prems kn probed show ?thesis
        by (auto simp: declaredOffline_def)
    next
      case (Inr nn)
      show ?thesis
      proof (cases "nodeIsReady nn")
        case False
        with Cons.prems kn probed Inr show ?thesis
          by (auto simp: declaredOffline_def)
      next
        case True
        obtain r1 n1 e1 f1 where r: "checkNodes c retrying timeout nr rest = (r1, n1, e1, f1)"
          by (cases "checkNodes c retrying timeout nr rest") auto
        obtain r2 n2 e2 f2 where r': "checkNodes c retrying timeout True rest = (r2, n2, e2, f2)"
          by (cases "checkNodes c retrying timeout True rest") auto
        from Cons.IH [OF r] Cons.IH [OF r'] Cons.prems kn probed Inr True r r' show ?thesis
          by (auto simp: declaredOffline_def Let_def split: if_splits)
      qed
    qed
  qed
qed


lemma check_offline_iff:
  assumes "check c eim retrying = (eim', needRetry, err, fx)"
  shows "(SetNodeOffline x True \<in> set fx) =
           (\<exists>node \<in> set (visited c retrying (monitorNodesM eim)). ipM node = x \<and>
              declaredOffline c (if retrying then repollInterval else pollInterval) node)"
proof -
  obtain ns nr e f where
    r: "checkNodes c retrying (if retrying then repollInterval else pollInterval) False
          (monitorNodesM eim) = (ns, nr, e, f)"
    by (cases "checkNodes c retrying (if retrying then repollInterval else pollInterval) False
          (monitorNodesM eim)") auto
  with assms have "fx = f" by (simp add: check_def Let_def)
  with checkNodes_offline_iff [OF r, of x] show ?thesis by simp
qed

lemma check_single_ready:
  assumes "nodeGet c nm = Inr nn" "nodeIsReady nn"
  shows "check c (eim \<lparr> monitorNodesM :=
            [(k, \<lparr> ipM = x, nameM = nm, offlineM = False, retriesM = r \<rparr>)] \<rparr>) False =
         (if Ping c x pollInterval
          then (eim \<lparr> monitorNodesM :=
                  [(k, \<lparr> ipM = x, nameM = nm, offlineM = False, retriesM = r \<rparr>)] \<rparr>,
                False, None, [])
          else if r + 1 > maxRetries
          then (eim \<lparr> monitorNodesM :=
                  [(k, \<lparr> ipM = x, nameM = nm, offlineM = True, retriesM = 0 \<rparr>)] \<rparr>,
                False, None,
                [LogM (''Node '' @ x @ '' is offline''), SetNodeOffline x True])
          else (eim \<lparr> monitorNodesM :=
                  [(k, \<lparr> ipM = x, nameM = nm, offlineM = False, retriesM = r + 1 \<rparr>)] \<rparr>,
                True, None,
                [LogM (''Node '' @ x @ '' may be offline... retrying'')]))"
  using assms by (simp add: check_def Let_def)

lemma poll_single_node:
  assumes "\<forall>c \<in> set cs. \<exists>nn. nodeGet c nm = Inr nn \<and> nodeIsReady nn"
    and "r \<le> maxRetries"
  shows "(SetNodeOffline x True \<in> set (snd (poll cs False
            (eim \<lparr> monitorNodesM :=
               [(k, \<lparr> ipM = x, nameM = nm, offlineM = False, retriesM = r \<rparr>)] \<rparr>)))) =
         (maxRetries < r + failedProbes cs x)"
  using assms
proof (induction cs arbitrary: r eim)
  case Nil
  then show ?case by (simp add: failedProbes_def)
next
  case (Cons c cs)
  from Cons.prems(1) obtain nn where nn: "nodeGet c nm = Inr nn" "nodeIsReady nn" by auto
  from Cons.prems(1) have rest: "\<forall>c \<in> set cs. \<exists>nn. nodeGet c nm = Inr nn \<and> nodeIsReady nn"
    by simp
  note chk = check_single_ready [OF nn, where eim = eim and k = k and x = x and r = r]
  show ?case
  proof (cases "Ping c x pollInterval")
    case True
    have fp: "failedProbes (c # cs) x = failedProbes cs x"
      using True by (simp add: failedProbes_def)
    from Cons.IH [OF rest Cons.prems(2), where eim = eim] True chk show ?thesis
      unfolding fp by (simp add: split_beta)
  next
    case False
    have fp: "failedProbes (c # cs) x = Suc (failedProbes cs x)"
      using False by (simp add: failedProbes_def)
    show ?thesis
    proof (cases "r + 1 > maxRetries")
      case True
      with False chk show ?thesis
        unfolding fp by (simp add: split_beta)
    next
      case nlim: False
      then have r1: "r + 1 \<le> maxRetries" by simp
      from Cons.IH [OF rest r1, where eim = eim] False nlim chk show ?thesis
        unfolding fp by (simp add: split_beta)
    qed
  qed
qed

text \<open>
  C6 (as stated, refuted): a Ready node whose probes fail, succeed, fail and fail is
  declared offline at the fourth round, though no three consecutive probes failed.
\<close>

theorem C6_not_consecutive:
  "nodeIsReady readyNode \<and>
   Ping (pingCluster True) ''10.0.0.3'' pollInterval \<and>
   snd (poll [pingCluster False, pingCluster True, pingCluster False, pingCluster False]
          False oneNodeManager) =
     [LogM ''Node 10.0.0.3 may be offline... retrying'',
      SleepRest pollInterval,
      LogM ''Node 10.0.0.3 may be offline... retrying'',
      LogM ''Node 10.0.0.3 is offline'',
      SetNodeOffline ''10.0.0.3'' True,
      SleepRest pollInterval]"
  by (simp add: nodeIsReady_def readyNode_def pingCluster_def oneNodeManager_def
      newEgressIPManager_def check_def Let_def maxRetries_def NodeReady_def
      ConditionFalse_def ConditionUnknown_def)

text \<open>
  C6 (amended): one check declares the node with IP \<open>x\<close> offline exactly when it looks at a
  node with that IP (nodes are looked at in map order up to the first one that cannot be
  fetched or is not Ready) and that node is not Ready, or is not marked offline, fails the
  probe and has already failed \<^verbatim>\<open>maxRetries\<close> probes. And over the rounds of the poll loop
  a single monitored node that stays Ready is declared offline exactly when
  \<^verbatim>\<open>maxRetries + 1\<close> of its probes have failed, consecutive or not.
\<close>

theorem C6_offline_declared:
  "(check c eim retrying = (eim', needRetry, err, fx) \<longrightarrow>
      (SetNodeOffline x True \<in> set fx) =
        (\<exists>node \<in> set (visited c retrying (monitorNodesM eim)). ipM node = x \<and>
           declaredOffline c (if retrying then repollInterval else pollInterval) node)) \<and>
   ((\<forall>c \<in> set cs. \<exists>nn. nodeGet c nm = Inr nn \<and> nodeIsReady nn) \<longrightarrow>
      (SetNodeOffline x True \<in> set (snd (poll cs False
            (eim \<lparr> monitorNodesM :=
               [(k, \<lparr> ipM = x, nameM = nm, offlineM = False, retriesM = 0 \<rparr>)] \<rparr>)))) =
      (maxRetries + 1 \<le> failedProbes cs x))"
proof (intro conjI impI)
  assume "check c eim retrying = (eim', needRetry, err, fx)"
  then show "(SetNodeOffline x True \<in> set fx) =
        (\<exists>node \<in> set (visited c retrying (monitorNodesM eim)). ipM node = x \<and>
           declaredOffline c (if retrying then repollInterval else pollInterval) node)"
    by (rule check_offline_iff)
next
  assume "\<forall>c \<in> set cs. \<exists>nn. nodeGet c nm = Inr nn \<and> nodeIsReady nn"
  from poll_single_node [OF this, where r = 0 and x = x and eim = eim and k = k]
  show "(SetNodeOffline x True \<in> set (snd (poll cs False
            (eim \<lparr> monitorNodesM :=
               [(k, \<lparr> ipM = x, nameM = nm, offlineM = False, retriesM = 0 \<rparr>)] \<rparr>)))) =
      (maxRetries + 1 \<le> failedProbes cs x)"
    by auto
qed


theorem C6_offline_declared_witness:
  "snd (snd (snd (check (pingCluster False)
      (oneNodeManager \<lparr> monitorNodesM :=
         [(''10.0.0.3'', \<lparr> ipM = ''10.0.0.3'', nameM = ''nodeB'', offlineM = False,
                            retriesM = 2 \<rparr>)] \<rparr>) False))) =
     [LogM ''Node 10.0.0.3 is offline'', SetNodeOffline ''10.0.0.3'' True] \<and>
   (\<exists>node \<in> set (visited (pingCluster False) False
        [(''10.0.0.3'', \<lparr> ipM = ''10.0.0.3'', nameM = ''nodeB'', offlineM = False,
                           retriesM = 2 \<rparr>)]).
      ipM node = ''10.0.0.3'' \<and> declaredOffline (pingCluster False) pollInterval node) \<and>
   nodeGet (pingCluster False) ''nodeB'' = Inr readyNode \<and>
   nodeGet (pingCluster True) ''nodeB'' = Inr readyNode \<and> nodeIsReady readyNode \<and>
   SetNodeOffline ''10.0.0.3'' True \<in> set (snd (poll
      [pingCluster False, pingCluster True, pingCluster False, pingCluster False]
      False oneNodeManager)) \<and>
   maxRetries + 1 \<le> failedProbes
      [pingCluster False, pingCluster True, pingCluster False, pingCluster False] ''10.0.0.3''"
proof -
  let ?e = "oneNodeManager \<lparr> monitorNodesM :=
         [(''10.0.0.3'', \<lparr> ipM = ''10.0.0.3'', nameM = ''nodeB'', offlineM = False,
                            retriesM = 2 \<rparr>)] \<rparr>"
  let ?r = "check (pingCluster False) ?e False"
  let ?cs = "[pingCluster False, pingCluster True, pingCluster False, pingCluster False]"
  have rdy: "nodeIsReady readyNode"
    by (simp add: nodeIsReady_def readyNode_def NodeReady_def ConditionFalse_def
        ConditionUnknown_def)
  have r: "?r = (fst ?r, fst (snd ?r), fst (snd (snd ?r)), snd (snd (snd ?r)))" by simp
  have fx: "snd (snd (snd ?r)) =
     [LogM ''Node 10.0.0.3 is offline'', SetNodeOffline ''10.0.0.3'' True]"
    using rdy by (simp add: check_def Let_def pingCluster_def maxRetries_def oneNodeManager_def)
  have all: "\<forall>c \<in> set ?cs. \<exists>nn. nodeGet c ''nodeB'' = Inr nn \<and> nodeIsReady nn"
    using rdy by (simp add: pingCluster_def)
  have one: "oneNodeManager \<lparr> monitorNodesM :=
               [(''10.0.0.3'', \<lparr> ipM = ''10.0.0.3'', nameM = ''nodeB'', offlineM = False,
                                  retriesM = 0 \<rparr>)] \<rparr> = oneNodeManager"
    by (simp add: oneNodeManager_def)
  have fp: "maxRetries + 1 \<le> failedProbes ?cs ''10.0.0.3''"
    by (simp add: failedProbes_def pingCluster_def maxRetries_def)
  note t = C6_offline_declared [where c = "pingCluster False" and eim = ?e and retrying = False
      and eim' = "fst ?r" and needRetry = "fst (snd ?r)" and err = "fst (snd (snd ?r))"
      and fx = "snd (snd (snd ?r))" and x = "''10.0.0.3''" and cs = ?cs and nm = "''nodeB''"
      and k = "''10.0.0.3''"]
  from t r fx have a: "\<exists>node \<in> set (visited (pingCluster False) False (monitorNodesM ?e)).
      ipM node = ''10.0.0.3'' \<and> declaredOffline (pingCluster False) pollInterval node"
    by simp
  from t all fp have b: "SetNodeOffline ''10.0.0.3'' True \<in> set (snd (poll ?cs False
            (?e \<lparr> monitorNodesM :=
               [(''10.0.0.3'', \<lparr> ipM = ''10.0.0.3'', nameM = ''nodeB'', offlineM = False,
                                  retriesM = 0 \<rparr>)] \<rparr>)))"
    by blast
  have "?e \<lparr> monitorNodesM :=
               [(''10.0.0.3'', \<lparr> ipM = ''10.0.0.3'', nameM = ''nodeB'', offlineM = False,
                                  retriesM = 0 \<rparr>)] \<rparr> = oneNodeManager"
    by (simp add: oneNodeManager_def)
  with b have b': "SetNodeOffline ''10.0.0.3'' True \<in> set (snd (poll ?cs False oneNodeManager))"
    by simp
  from a have a': "\<exists>node \<in> set (visited (pingCluster False) False
        [(''10.0.0.3'', \<lparr> ipM = ''10.0.0.3'', nameM = ''nodeB'', offlineM = False,
                           retriesM = 2 \<rparr>)]).
      ipM node = ''10.0.0.3'' \<and> declaredOffline (pingCluster False) pollInterval node"
    by simp
  have g: "nodeGet (pingCluster False) ''nodeB'' = Inr readyNode"
    "nodeGet (pingCluster True) ''nodeB'' = Inr readyNode"
    by (simp_all add: pingCluster_def)
  from fx a' g rdy b' fp show ?thesis by blast
qed


end
